theory Spec2Isabelle
  imports Complex_Main
begin

section \<open>Errors and text rendering\<close>

text \<open>
  The Python exceptions the core raises, each carrying its message. A method that can
  raise is modelled as a function returning the outcome together with the object as the
  call leaves it, so that a mutation made before a raise stays visible.
\<close>

datatype error = RuntimeError string | ValueError string | IndexError string

text \<open>Decimal rendering of a Python integer, as an f-string prints it.\<close>

fun str_nat :: "nat \<Rightarrow> string" where
  "str_nat n =
     (if n < 10 then [char_of (48 + n)]
      else str_nat (n div 10) @ [char_of (48 + n mod 10)])"

declare str_nat.simps [simp del]

definition str_int :: "int \<Rightarrow> string" where
  "str_int i = (if i < 0 then CHR ''-'' # str_nat (nat (- i)) else str_nat (nat i))"

section \<open>models.py\<close>

datatype PhaseType = BREATHING | HOLD

datatype PhaseState = NOT_STARTED | IN_PROGRESS | COUNTDOWN | COMPLETED

datatype DisplayMode = TUI | PLAIN

text \<open>\<open>str\<close> of an enum member, as the f-strings of the error messages print it.\<close>

fun str_PhaseState :: "PhaseState \<Rightarrow> string" where
  "str_PhaseState NOT_STARTED = ''PhaseState.NOT_STARTED''"
| "str_PhaseState IN_PROGRESS = ''PhaseState.IN_PROGRESS''"
| "str_PhaseState COUNTDOWN = ''PhaseState.COUNTDOWN''"
| "str_PhaseState COMPLETED = ''PhaseState.COMPLETED''"

text \<open>
  class Phase. The field \<open>type\<close> is \<open>ptype\<close> here and the private \<open>_state\<close> is
  \<open>state\<close>, the name of its read-only property.
\<close>

record Phase =
  ptype :: PhaseType
  duration :: int
  instruction :: string
  color :: string
  state :: PhaseState

text \<open>The dataclass constructor: \<open>_state\<close> is not an argument and starts NOT_STARTED.\<close>

definition Phase_init :: "PhaseType \<Rightarrow> int \<Rightarrow> string \<Rightarrow> string \<Rightarrow> Phase" where
  "Phase_init ty d ins col =
     \<lparr>ptype = ty, duration = d, instruction = ins, color = col, state = NOT_STARTED\<rparr>"

definition Phase_start :: "Phase \<Rightarrow> (error + unit) \<times> Phase" where
  "Phase_start p =
     (if state p \<noteq> NOT_STARTED
      then (Inl (RuntimeError (''Cannot start phase in state '' @ str_PhaseState (state p))), p)
      else (Inr (), p\<lparr>state := IN_PROGRESS\<rparr>))"

definition Phase_enter_countdown :: "Phase \<Rightarrow> (error + unit) \<times> Phase" where
  "Phase_enter_countdown p =
     (if state p \<noteq> IN_PROGRESS
      then (Inl (RuntimeError (''Cannot enter countdown from state '' @ str_PhaseState (state p))), p)
      else (Inr (), p\<lparr>state := COUNTDOWN\<rparr>))"

definition Phase_complete :: "Phase \<Rightarrow> (error + unit) \<times> Phase" where
  "Phase_complete p =
     (if state p \<notin> {IN_PROGRESS, COUNTDOWN}
      then (Inl (RuntimeError (''Cannot complete phase in state '' @ str_PhaseState (state p))), p)
      else (Inr (), p\<lparr>state := COMPLETED\<rparr>))"

definition is_not_started :: "Phase \<Rightarrow> bool" where
  "is_not_started p = (state p = NOT_STARTED)"

definition is_in_progress :: "Phase \<Rightarrow> bool" where
  "is_in_progress p = (state p = IN_PROGRESS)"

definition is_in_countdown :: "Phase \<Rightarrow> bool" where
  "is_in_countdown p = (state p = COUNTDOWN)"

definition is_completed :: "Phase \<Rightarrow> bool" where
  "is_completed p = (state p = COMPLETED)"

text \<open>A call of one of the three transition methods, and a sequence of such calls on one
  phase: a call that raises is caught by the caller and the next call is made on the
  phase as the failed call left it.\<close>

datatype phase_op = Start | EnterCountdown | Complete

fun phase_call :: "phase_op \<Rightarrow> Phase \<Rightarrow> (error + unit) \<times> Phase" where
  "phase_call Start p = Phase_start p"
| "phase_call EnterCountdown p = Phase_enter_countdown p"
| "phase_call Complete p = Phase_complete p"

text \<open>The states a phase goes through under a sequence of calls, the first state included.\<close>

fun phase_trace :: "phase_op list \<Rightarrow> Phase \<Rightarrow> PhaseState list" where
  "phase_trace [] p = [state p]"
| "phase_trace (c # cs) p = state p # phase_trace cs (snd (phase_call c p))"

text \<open>The position of a state in the lifecycle.\<close>

fun state_rank :: "PhaseState \<Rightarrow> nat" where
  "state_rank NOT_STARTED = 0"
| "state_rank IN_PROGRESS = 1"
| "state_rank COUNTDOWN = 2"
| "state_rank COMPLETED = 3"

text \<open>class ExerciseConfig.\<close>

record ExerciseConfig =
  hold_duration :: int
  step_durations :: "int list"
  countdown_beep_threshold :: int
  preparation_duration :: int
  audio_enabled :: bool
  display_mode :: DisplayMode

text \<open>The loop of \<open>validate\<close> over \<open>enumerate(self.step_durations)\<close>, from index \<open>i\<close>.\<close>

fun validate_steps :: "nat \<Rightarrow> int list \<Rightarrow> error + unit" where
  "validate_steps i [] = Inr ()"
| "validate_steps i (d # ds) =
     (if d \<le> 0 then
        Inl (ValueError (''All step durations must be positive. Step '' @ str_int (int i + 1)
              @ '' has invalid duration: '' @ str_int d))
      else if d > 120 then
        Inl (ValueError (''Step durations cannot exceed 120 seconds. Step '' @ str_int (int i + 1)
              @ '' has duration: '' @ str_int d))
      else validate_steps (Suc i) ds)"

definition validate :: "ExerciseConfig \<Rightarrow> error + unit" where
  "validate c =
     (if hold_duration c \<le> 0 then
        Inl (ValueError (''Hold duration must be positive (got '' @ str_int (hold_duration c) @ '')''))
      else if hold_duration c > 300 then
        Inl (ValueError (''Hold duration cannot exceed 300 seconds (got ''
              @ str_int (hold_duration c) @ '')''))
      else if step_durations c = [] then
        Inl (ValueError
          ''Step durations cannot be empty. Provide at least one breathing step duration.'')
      else
        (case validate_steps 0 (step_durations c) of
           Inl e \<Rightarrow> Inl e
         | Inr _ \<Rightarrow>
            if countdown_beep_threshold c < 0 then
              Inl (ValueError (''Countdown beep threshold must be non-negative (got ''
                    @ str_int (countdown_beep_threshold c) @ '')''))
            else if preparation_duration c < 0 then
              Inl (ValueError (''Preparation duration must be non-negative (got ''
                    @ str_int (preparation_duration c) @ '')''))
            else Inr ()))"

text \<open>Constructing an ExerciseConfig: the dataclass stores the fields and
  \<open>__post_init__\<close> runs \<open>validate\<close>, whose exception leaves no object.\<close>

definition ExerciseConfig_init ::
  "int \<Rightarrow> int list \<Rightarrow> int \<Rightarrow> int \<Rightarrow> bool \<Rightarrow> DisplayMode \<Rightarrow> error + ExerciseConfig" where
  "ExerciseConfig_init h ss cd prep audio mode =
     (let c = \<lparr>hold_duration = h, step_durations = ss, countdown_beep_threshold = cd,
                preparation_duration = prep, audio_enabled = audio, display_mode = mode\<rparr>
      in case validate c of Inl e \<Rightarrow> Inl e | Inr _ \<Rightarrow> Inr c)"

section \<open>timer.py\<close>

text \<open>
  class Timer. Instants and durations are real numbers; every method that calls
  \<open>time.monotonic()\<close> takes the reading \<open>now\<close> that the call returns. The field
  \<open>duration\<close> is \<open>t_duration\<close> here (the name is taken by Phase).
\<close>

record Timer =
  t_duration :: real
  countdown_threshold :: real
  start_time :: "real option"
  is_running :: bool

definition Timer_init :: "real \<Rightarrow> real \<Rightarrow> error + Timer" where
  "Timer_init d thr =
     (if d \<le> 0 then Inl (ValueError ''Duration must be positive'')
      else if thr < 0 then Inl (ValueError ''Countdown threshold must be non-negative'')
      else Inr \<lparr>t_duration = d, countdown_threshold = thr, start_time = None, is_running = False\<rparr>)"

definition Timer_start :: "real \<Rightarrow> Timer \<Rightarrow> (error + unit) \<times> Timer" where
  "Timer_start now t =
     (if is_running t then (Inl (RuntimeError ''Timer is already running''), t)
      else (Inr (), t\<lparr>start_time := Some now, is_running := True\<rparr>))"

definition Timer_reset :: "Timer \<Rightarrow> Timer" where
  "Timer_reset t = t\<lparr>start_time := None, is_running := False\<rparr>"

definition elapsed :: "real \<Rightarrow> Timer \<Rightarrow> real" where
  "elapsed now t = (case start_time t of None \<Rightarrow> 0 | Some s \<Rightarrow> now - s)"

definition is_expired :: "real \<Rightarrow> Timer \<Rightarrow> bool" where
  "is_expired now t = (if \<not> is_running t then False else elapsed now t \<ge> t_duration t)"

definition remaining_time :: "real \<Rightarrow> Timer \<Rightarrow> real" where
  "remaining_time now t =
     (if \<not> is_running t then t_duration t
      else let remaining = t_duration t - elapsed now t in max 0 remaining)"

definition in_countdown :: "real \<Rightarrow> Timer \<Rightarrow> bool" where
  "in_countdown now t =
     (if \<not> is_running t then False
      else if countdown_threshold t = 0 then False
      else 0 < remaining_time now t \<and> remaining_time now t \<le> countdown_threshold t)"

section \<open>configuration.py\<close>

text \<open>The constants of \<open>exercise_defaults\<close> and \<open>display_config\<close> that the core reads.\<close>

definition PREPARATION_INSTRUCTION :: string where
  "PREPARATION_INSTRUCTION = ''Prepare''"

definition HOLD_INSTRUCTION :: string where
  "HOLD_INSTRUCTION = ''Hold''"

definition BREATHING_INSTRUCTION :: string where
  "BREATHING_INSTRUCTION = ''Breathe''"

definition PHASE_COLORS :: "(string \<times> string) list" where
  "PHASE_COLORS = [(''breathing'', ''cyan''), (''hold'', ''yellow''), (''countdown'', ''red'')]"

section \<open>exercise.py\<close>

text \<open>
  \<open>template.format(duration=d)\<close> for a template whose replacement fields are all
  \<open>{duration}\<close>: each field is replaced by the decimal value and the other text is
  copied. A template with no field comes back as it is.
\<close>

fun format_duration :: "string \<Rightarrow> int \<Rightarrow> string" where
  "format_duration [] d = []"
| "format_duration (c # cs) d =
     (if take 10 (c # cs) = ''{duration}'' then str_int d @ format_duration (drop 9 cs) d
      else c # format_duration cs d)"

record Exercise =
  config :: ExerciseConfig
  phases :: "Phase list"
  current_phase_index :: "nat option"
  timer :: "Timer option"
  started :: bool
  completed :: bool

text \<open>\<open>ExerciseConfig()\<close> with every field at its default.\<close>

definition default_config :: ExerciseConfig where
  "default_config =
     \<lparr>hold_duration = 60, step_durations = [30, 20, 10], countdown_beep_threshold = 5,
      preparation_duration = 0, audio_enabled = True, display_mode = TUI\<rparr>"

definition Exercise_init :: "ExerciseConfig option \<Rightarrow> Exercise" where
  "Exercise_init cfg =
     \<lparr>config = (case cfg of Some c \<Rightarrow> c | None \<Rightarrow> default_config),
      phases = [], current_phase_index = None, timer = None,
      started = False, completed = False\<rparr>"

text \<open>The loop of \<open>_generate_phases\<close> over the step durations, appending to the list
  \<open>ps\<close> (\<open>phases\<close> in the source).\<close>

fun append_steps :: "ExerciseConfig \<Rightarrow> Phase list \<Rightarrow> int list \<Rightarrow> Phase list" where
  "append_steps cfg ps [] = ps"
| "append_steps cfg ps (breathing_duration # rest) =
     (let breathing_phase =
            Phase_init BREATHING breathing_duration
              (format_duration BREATHING_INSTRUCTION breathing_duration)
              (the (map_of PHASE_COLORS ''breathing''));
          ps = ps @ [breathing_phase];
          hold_phase =
            Phase_init HOLD (hold_duration cfg) HOLD_INSTRUCTION
              (the (map_of PHASE_COLORS ''hold''));
          ps = ps @ [hold_phase]
      in append_steps cfg ps rest)"

definition generate_phases :: "ExerciseConfig \<Rightarrow> Phase list" where
  "generate_phases cfg =
     (let ps = [];
          ps =
            (if preparation_duration cfg > 0
             then ps @ [Phase_init BREATHING (preparation_duration cfg)
                          PREPARATION_INSTRUCTION ''blue'']
             else ps);
          ps = append_steps cfg ps (step_durations cfg);
          complete_phase = Phase_init BREATHING 1 ''Complete'' ''blue''
      in ps @ [complete_phase])"

text \<open>\<open>Timer(duration=..., countdown_threshold=...)\<close> followed by \<open>self.timer.start()\<close>,
  as \<open>start\<close> and \<open>advance_phase\<close> both do for the phase \<open>p\<close> they have just started.\<close>

definition new_timer :: "real \<Rightarrow> Phase \<Rightarrow> Exercise \<Rightarrow> (error + unit) \<times> Exercise" where
  "new_timer now p e =
     (case Timer_init (of_int (duration p)) (of_int (countdown_beep_threshold (config e))) of
        Inl err \<Rightarrow> (Inl err, e)
      | Inr t \<Rightarrow>
          (case Timer_start now t of
             (r, t') \<Rightarrow> (r, e\<lparr>timer := Some t'\<rparr>)))"

text \<open>\<open>self.phases[i].start()\<close>: the phase object in the list is changed in place; an
  index out of range raises.\<close>

definition start_phase_at :: "nat \<Rightarrow> Exercise \<Rightarrow> (error + unit) \<times> Exercise" where
  "start_phase_at i e =
     (if i < length (phases e) then
        (case Phase_start (phases e ! i) of
           (r, p') \<Rightarrow> (r, e\<lparr>phases := (phases e)[i := p']\<rparr>))
      else (Inl (IndexError ''list index out of range''), e))"

definition complete_phase_at :: "nat \<Rightarrow> Exercise \<Rightarrow> (error + unit) \<times> Exercise" where
  "complete_phase_at i e =
     (if i < length (phases e) then
        (case Phase_complete (phases e ! i) of
           (r, p') \<Rightarrow> (r, e\<lparr>phases := (phases e)[i := p']\<rparr>))
      else (Inl (IndexError ''list index out of range''), e))"

definition Exercise_start :: "real \<Rightarrow> Exercise \<Rightarrow> (error + unit) \<times> Exercise" where
  "Exercise_start now e =
     (if started e \<and> \<not> completed e then
        (Inl (RuntimeError ''Exercise already started''), e)
      else if completed e then
        (Inl (RuntimeError ''Exercise already completed. Call reset() to start again''), e)
      else
        (let e = e\<lparr>phases := generate_phases (config e)\<rparr>;
             e = e\<lparr>started := True, completed := False, current_phase_index := Some 0\<rparr>
         in case start_phase_at 0 e of
              (Inl err, e) \<Rightarrow> (Inl err, e)
            | (Inr _, e) \<Rightarrow> new_timer now (phases e ! 0) e))"

definition advance_phase :: "real \<Rightarrow> real \<Rightarrow> Exercise \<Rightarrow> (error + bool) \<times> Exercise" where
  "advance_phase now now' e =
     (if \<not> started e then (Inl (RuntimeError ''Exercise not started''), e)
      else if completed e then (Inr False, e)
      else if (case timer e of None \<Rightarrow> False | Some t \<Rightarrow> \<not> is_expired now t) then
        (Inl (RuntimeError ''Current phase not complete''), e)
      else
        (case (case current_phase_index e of
                 None \<Rightarrow> (Inr (), e)
               | Some i \<Rightarrow> complete_phase_at i e) of
           (Inl err, e) \<Rightarrow> (Inl err, e)
         | (Inr _, e) \<Rightarrow>
             (case current_phase_index e of
                Some i \<Rightarrow>
                  if int i < int (length (phases e)) - 1 then
                    (let e = e\<lparr>current_phase_index := Some (i + 1)\<rparr>
                     in case start_phase_at (i + 1) e of
                          (Inl err, e) \<Rightarrow> (Inl err, e)
                        | (Inr _, e) \<Rightarrow>
                            (case new_timer now' (phases e ! (i + 1)) e of
                               (Inl err, e) \<Rightarrow> (Inl err, e)
                             | (Inr _, e) \<Rightarrow> (Inr True, e)))
                  else (Inr False, e\<lparr>completed := True, current_phase_index := None\<rparr>)
              | None \<Rightarrow> (Inr False, e\<lparr>completed := True, current_phase_index := None\<rparr>))))"

definition get_current_phase :: "Exercise \<Rightarrow> error + Phase option" where
  "get_current_phase e =
     (if \<not> started e \<or> completed e then Inr None
      else case current_phase_index e of
             Some i \<Rightarrow>
               if i < length (phases e) then Inr (Some (phases e ! i))
               else Inl (IndexError ''list index out of range'')
           | None \<Rightarrow> Inr None)"

definition is_complete :: "Exercise \<Rightarrow> bool" where
  "is_complete e = completed e"

definition Exercise_reset :: "Exercise \<Rightarrow> Exercise" where
  "Exercise_reset e =
     e\<lparr>phases := [], current_phase_index := None, timer := None,
       started := False, completed := False\<rparr>"

section \<open>core.py\<close>

text \<open>
  The render loop of \<open>run_exercise\<close>. The monotonic clock is a sequence \<open>clock\<close> of
  readings: the loop hands reading number \<open>reads\<close> to each Timer or Exercise call that may
  consult the clock, in the order of the calls, and counts it as used (a call that does
  not consult the clock ignores its reading). The display is a sink that does not
  raise; of its calls the model records those of \<open>display.beep\<close>, each with the
  current phase index and the integer remaining value at the call. A cancellation signal
  is not modelled.
\<close>

record loop_state =
  exercise :: Exercise
  last_second :: int
  countdown_beeps_played :: "int set"
  reads :: nat
  beeps :: "(string \<times> nat option \<times> int) list"

datatype control = Continue | Break | Raise error

text \<open>\<open>int(x)\<close> on a float: truncation towards zero.\<close>

definition py_int :: "real \<Rightarrow> int" where
  "py_int x = (if x \<ge> 0 then \<lfloor>x\<rfloor> else \<lceil>x\<rceil>)"

text \<open>\<open>phase.enter_countdown()\<close> on the object that \<open>get_current_phase\<close> returned, which
  is the element of \<open>exercise.phases\<close> at the current index.\<close>

definition enter_countdown_current :: "Exercise \<Rightarrow> (error + unit) \<times> Exercise" where
  "enter_countdown_current e =
     (case get_current_phase e of
        Inl err \<Rightarrow> (Inl err, e)
      | Inr None \<Rightarrow> (Inr (), e)
      | Inr (Some p) \<Rightarrow>
          (case Phase_enter_countdown p of
             (r, p') \<Rightarrow> (r, e\<lparr>phases := (phases e)[the (current_phase_index e) := p']\<rparr>)))"

text \<open>The body of \<open>if remaining != last_second\<close>: the redraw and the two cues.\<close>

definition redraw :: "int \<Rightarrow> Phase \<Rightarrow> loop_state \<Rightarrow> loop_state" where
  "redraw remaining phase s =
     (if remaining \<noteq> last_second s then
        (let cfg = config (exercise s);
             s = (if audio_enabled cfg
                     \<and> 1 \<le> remaining \<and> remaining \<le> countdown_beep_threshold cfg
                     \<and> remaining \<notin> countdown_beeps_played s
                  then s\<lparr>beeps := beeps s
                              @ [(''countdown'', current_phase_index (exercise s), remaining)],
                         countdown_beeps_played := insert remaining (countdown_beeps_played s)\<rparr>
                  else s);
             is_complete_phase = (instruction phase = ''Complete'');
             s = (if audio_enabled cfg
                     \<and> remaining = 0
                     \<and> 0 \<notin> countdown_beeps_played s
                     \<and> \<not> is_complete_phase
                  then s\<lparr>beeps := beeps s
                              @ [(''transition'', current_phase_index (exercise s), remaining)],
                         countdown_beeps_played := insert 0 (countdown_beeps_played s)\<rparr>
                  else s)
         in s\<lparr>last_second := remaining\<rparr>)
      else s)"

text \<open>One iteration of \<open>while not exercise.is_complete()\<close>.\<close>

definition loop_body :: "(nat \<Rightarrow> real) \<Rightarrow> loop_state \<Rightarrow> control \<times> loop_state" where
  "loop_body clock s =
     (case get_current_phase (exercise s) of
        Inl err \<Rightarrow> (Raise err, s)
      | Inr None \<Rightarrow> (Break, s)
      | Inr (Some phase) \<Rightarrow>
          (case timer (exercise s) of
             None \<Rightarrow> (Break, s)
           | Some tm \<Rightarrow>
               (let n = reads s in
                case (if in_countdown (clock n) tm \<and> is_in_progress phase
                      then enter_countdown_current (exercise s)
                      else (Inr (), exercise s)) of
                  (Inl err, ex) \<Rightarrow> (Raise err, s\<lparr>exercise := ex, reads := n + 1\<rparr>)
                | (Inr _, ex) \<Rightarrow>
                    (let s = s\<lparr>exercise := ex\<rparr>;
                         remaining = py_int (remaining_time (clock (n + 1)) tm);
                         s = redraw remaining phase s
                     in if is_expired (clock (n + 2)) tm then
                          (case advance_phase (clock (n + 3)) (clock (n + 4)) (exercise s) of
                             (Inl err, ex) \<Rightarrow> (Raise err, s\<lparr>exercise := ex, reads := n + 5\<rparr>)
                           | (Inr advanced, ex) \<Rightarrow>
                               if \<not> advanced then (Break, s\<lparr>exercise := ex, reads := n + 5\<rparr>)
                               else
                                 (let s = s\<lparr>exercise := ex, reads := n + 5,
                                            last_second := - 1, countdown_beeps_played := {}\<rparr>
                                  in case get_current_phase ex of
                                       Inl err \<Rightarrow> (Raise err, s)
                                     | Inr _ \<Rightarrow> (Continue, s)))
                        else (Continue, s\<lparr>reads := n + 3\<rparr>)))))"

text \<open>The loop: the result is the exception that ended it, if one did, and the state it
  ended in; \<open>None\<close> when it never ends.\<close>

partial_function (option) exercise_loop ::
  "(nat \<Rightarrow> real) \<Rightarrow> loop_state \<Rightarrow> (error option \<times> loop_state) option" where
  "exercise_loop clock s =
     (if is_complete (exercise s) then Some (None, s)
      else case loop_body clock s of
             (Continue, s') \<Rightarrow> exercise_loop clock s'
           | (Break, s') \<Rightarrow> Some (None, s')
           | (Raise err, s') \<Rightarrow> Some (Some err, s'))"

text \<open>The loop state that \<open>run_exercise\<close> enters the loop with, once \<open>exercise.start()\<close>
  has used the first clock reading.\<close>

definition initial_loop_state :: "Exercise \<Rightarrow> loop_state" where
  "initial_loop_state ex =
     \<lparr>exercise = ex, last_second = - 1, countdown_beeps_played = {}, reads = 1, beeps = []\<rparr>"

text \<open>The block after the loop, \<open>if not exercise.is_complete()\<close>: its result is the
  exception it raises, if any.\<close>

definition final_advance :: "(nat \<Rightarrow> real) \<Rightarrow> loop_state \<Rightarrow> error option \<times> loop_state" where
  "final_advance clock s =
     (if \<not> is_complete (exercise s) then
        (let n = reads s in
         case advance_phase (clock n) (clock (n + 1)) (exercise s) of
           (Inl err, ex) \<Rightarrow> (Some err, s\<lparr>exercise := ex, reads := n + 2\<rparr>)
         | (Inr _, ex) \<Rightarrow>
             (let s = s\<lparr>exercise := ex, reads := n + 2\<rparr>
              in case get_current_phase ex of
                   Inl err \<Rightarrow> (Some err, s)
                 | Inr None \<Rightarrow> (None, s)
                 | Inr (Some final_phase) \<Rightarrow>
                     (case start_phase_at (the (current_phase_index ex)) ex of
                        (Inl err, ex) \<Rightarrow> (Some err, s\<lparr>exercise := ex\<rparr>)
                      | (Inr _, ex) \<Rightarrow> (None, s\<lparr>exercise := ex\<rparr>))))
      else (None, s))"

text \<open>\<open>run_exercise\<close>: \<open>Inl\<close> is an exception that leaves the function (only
  \<open>exercise.start()\<close> runs outside the \<open>try\<close>), \<open>Inr\<close> the value returned; \<open>None\<close>
  when the loop never ends.\<close>

definition run_exercise ::
  "ExerciseConfig \<Rightarrow> (nat \<Rightarrow> real) \<Rightarrow> ((error + bool) \<times> loop_state) option" where
  "run_exercise cfg clock =
     (case Exercise_start (clock 0) (Exercise_init (Some cfg)) of
        (Inl err, ex) \<Rightarrow> Some (Inl err, initial_loop_state ex)
      | (Inr _, ex) \<Rightarrow>
          (case exercise_loop clock (initial_loop_state ex) of
             None \<Rightarrow> None
           | Some (Some err, s) \<Rightarrow> Some (Inr False, s)
           | Some (None, s) \<Rightarrow>
               (case final_advance clock s of
                  (Some err, s) \<Rightarrow> Some (Inr False, s)
                | (None, s) \<Rightarrow> Some (Inr True, s))))"

section \<open>Notions used to state the properties\<close>

text \<open>The sequences of distinct states a phase can go through from a given state.\<close>

fun lifecycle_paths :: "PhaseState \<Rightarrow> PhaseState list list" where
  "lifecycle_paths NOT_STARTED =
     [[NOT_STARTED], [NOT_STARTED, IN_PROGRESS], [NOT_STARTED, IN_PROGRESS, COUNTDOWN],
      [NOT_STARTED, IN_PROGRESS, COUNTDOWN, COMPLETED], [NOT_STARTED, IN_PROGRESS, COMPLETED]]"
| "lifecycle_paths IN_PROGRESS =
     [[IN_PROGRESS], [IN_PROGRESS, COUNTDOWN], [IN_PROGRESS, COUNTDOWN, COMPLETED],
      [IN_PROGRESS, COMPLETED]]"
| "lifecycle_paths COUNTDOWN = [[COUNTDOWN], [COUNTDOWN, COMPLETED]]"
| "lifecycle_paths COMPLETED = [[COMPLETED]]"

text \<open>
  The states of an Exercise object that its interface and the render loop produce: it is
  constructed on a configuration that passed validation (or on the default one), and
  then \<open>start\<close>, \<open>advance_phase\<close> and \<open>reset\<close> are called at any clock readings, and the
  loop calls \<open>enter_countdown\<close> on its current phase. A call that raises counts too: the
  object stays as the call left it.
\<close>

inductive reachable :: "Exercise \<Rightarrow> bool" where
  init: "validate cfg = Inr () \<Longrightarrow> reachable (Exercise_init (Some cfg))"
| init_default: "reachable (Exercise_init None)"
| start: "reachable e \<Longrightarrow> reachable (snd (Exercise_start now e))"
| advance: "reachable e \<Longrightarrow> reachable (snd (advance_phase now now' e))"
| countdown: "reachable e \<Longrightarrow> reachable (snd (enter_countdown_current e))"
| reset: "reachable e \<Longrightarrow> reachable (Exercise_reset e)"

text \<open>What holds in every such state (shown below).\<close>

definition exercise_inv :: "Exercise \<Rightarrow> bool" where
  "exercise_inv e =
     (validate (config e) = Inr () \<and>
      (if \<not> started e then
         phases e = [] \<and> current_phase_index e = None \<and> timer e = None \<and> \<not> completed e
       else
         map (\<lambda>p. p\<lparr>state := NOT_STARTED\<rparr>) (phases e) = generate_phases (config e) \<and>
         (if completed e then
            current_phase_index e = None \<and> list_all is_completed (phases e)
          else
            (case (current_phase_index e, timer e) of
               (Some i, Some t) \<Rightarrow>
                 i < length (phases e) \<and>
                 list_all is_completed (take i (phases e)) \<and>
                 (is_in_progress (phases e ! i) \<or> is_in_countdown (phases e ! i)) \<and>
                 list_all is_not_started (drop (Suc i) (phases e)) \<and>
                 is_running t \<and> start_time t \<noteq> None \<and>
                 t_duration t = of_int (duration (phases e ! i)) \<and>
                 countdown_threshold t = of_int (countdown_beep_threshold (config e))
             | _ \<Rightarrow> False))))"

text \<open>
  The states of the render loop of \<open>run_exercise cfg\<close> under the clock readings
  \<open>clock\<close>: the state the loop is entered with, and the state after each iteration,
  whether the iteration continues, breaks or raises.
\<close>

inductive loop_states :: "ExerciseConfig \<Rightarrow> (nat \<Rightarrow> real) \<Rightarrow> loop_state \<Rightarrow> bool"
  for cfg :: ExerciseConfig and clock :: "nat \<Rightarrow> real" where
  enter: "validate cfg = Inr () \<Longrightarrow>
          Exercise_start (clock 0) (Exercise_init (Some cfg)) = (Inr (), ex) \<Longrightarrow>
          loop_states cfg clock (initial_loop_state ex)"
| tick: "loop_states cfg clock s \<Longrightarrow> \<not> is_complete (exercise s) \<Longrightarrow>
         loop_body clock s = (c, s') \<Longrightarrow> loop_states cfg clock s'"

text \<open>
  What holds of the recorded cues in every state of the loop (shown below): no cue is
  recorded twice, every cue was emitted with audio enabled for a phase up to the current
  one, a countdown cue at a remaining value in [1, countdown_beep_threshold], a
  transition cue at remaining value 0 for a phase not labeled "Complete", and every
  cue of the current phase has its remaining value in \<open>countdown_beeps_played\<close>.
\<close>

definition cue_ok ::
  "ExerciseConfig \<Rightarrow> nat option \<Rightarrow> int set \<Rightarrow> string \<times> nat option \<times> int \<Rightarrow> bool" where
  "cue_ok cfg cur played c =
     (case c of (k, j, r) \<Rightarrow>
        audio_enabled cfg \<and>
        (case j of
           None \<Rightarrow> False
         | Some j' \<Rightarrow>
             j' < length (generate_phases cfg) \<and>
             ((k = ''countdown'' \<and> 1 \<le> r \<and> r \<le> countdown_beep_threshold cfg) \<or>
              (k = ''transition'' \<and> r = 0 \<and>
               instruction (generate_phases cfg ! j') \<noteq> ''Complete'')) \<and>
             (case cur of
                None \<Rightarrow> True
              | Some i \<Rightarrow> j' \<le> i \<and> (j' = i \<longrightarrow> r \<in> played))))"

definition cues_ok :: "ExerciseConfig \<Rightarrow> loop_state \<Rightarrow> bool" where
  "cues_ok cfg s =
     (distinct (beeps s) \<and>
      list_all (cue_ok cfg (current_phase_index (exercise s)) (countdown_beeps_played s))
        (beeps s))"

definition loop_inv :: "ExerciseConfig \<Rightarrow> loop_state \<Rightarrow> bool" where
  "loop_inv cfg s =
     (exercise_inv (exercise s) \<and> config (exercise s) = cfg \<and> started (exercise s) \<and>
      cues_ok cfg s)"

section \<open>Phase lifecycle\<close>

lemma phase_call_rank: "state_rank (state p) \<le> state_rank (state (snd (phase_call c p)))"
  by (cases c; cases "state p")
     (simp_all add: Phase_start_def Phase_enter_countdown_def Phase_complete_def)

lemma phase_trace_lower:
  "s \<in> set (phase_trace cs p) \<Longrightarrow> state_rank (state p) \<le> state_rank s"
proof (induction cs arbitrary: p)
  case Nil
  then show ?case by simp
next
  case (Cons c cs)
  show ?case
  proof (cases "s = state p")
    case True
    then show ?thesis by simp
  next
    case False
    with Cons.prems have "s \<in> set (phase_trace cs (snd (phase_call c p)))" by simp
    then have "state_rank (state (snd (phase_call c p))) \<le> state_rank s" by (rule Cons.IH)
    with phase_call_rank [of p c] show ?thesis by (rule le_trans)
  qed
qed

lemma phase_trace_sorted: "sorted (map state_rank (phase_trace cs p))"
proof (induction cs arbitrary: p)
  case Nil
  show ?case by simp
next
  case (Cons c cs)
  show ?case using Cons.IH [of "snd (phase_call c p)"] phase_trace_lower [of _ cs "snd (phase_call c p)"]
      phase_call_rank [of p c]
    by (auto intro: le_trans)
qed

lemma phase_trace_Cons: "phase_trace cs p = state p # tl (phase_trace cs p)"
  by (cases cs) simp_all

lemma phase_call_cases:
  "snd (phase_call c p) = p \<or>
   (state p = NOT_STARTED \<and> state (snd (phase_call c p)) = IN_PROGRESS) \<or>
   (state p = IN_PROGRESS \<and> state (snd (phase_call c p)) = COUNTDOWN) \<or>
   (state p = IN_PROGRESS \<and> state (snd (phase_call c p)) = COMPLETED) \<or>
   (state p = COUNTDOWN \<and> state (snd (phase_call c p)) = COMPLETED)"
  by (cases c; cases "state p")
     (simp_all add: Phase_start_def Phase_enter_countdown_def Phase_complete_def)

lemma phase_trace_paths:
  "remdups_adj (phase_trace cs p) \<in> set (lifecycle_paths (state p))"
proof (induction cs arbitrary: p)
  case Nil
  show ?case by (cases "state p") simp_all
next
  case (Cons c cs)
  let ?q = "snd (phase_call c p)"
  have tr: "phase_trace cs ?q = state ?q # tl (phase_trace cs ?q)"
    by (rule phase_trace_Cons)
  have IH: "remdups_adj (state ?q # tl (phase_trace cs ?q)) \<in> set (lifecycle_paths (state ?q))"
    using Cons.IH [of ?q] tr by simp
  have eq: "remdups_adj (phase_trace (c # cs) p) =
      (if state p = state ?q then remdups_adj (state ?q # tl (phase_trace cs ?q))
       else state p # remdups_adj (state ?q # tl (phase_trace cs ?q)))"
    using tr by (metis phase_trace.simps(2) remdups_adj.simps(3))
  from phase_call_cases [of c p] show ?case
  proof (elim disjE conjE)
    assume "?q = p"
    with IH eq show ?thesis by simp
  next
    assume "state p = NOT_STARTED" "state ?q = IN_PROGRESS"
    with IH eq show ?thesis by auto
  next
    assume "state p = IN_PROGRESS" "state ?q = COUNTDOWN"
    with IH eq show ?thesis by auto
  next
    assume "state p = IN_PROGRESS" "state ?q = COMPLETED"
    with IH eq show ?thesis by auto
  next
    assume "state p = COUNTDOWN" "state ?q = COMPLETED"
    with IH eq show ?thesis by auto
  qed
qed

lemma phase_call_failure:
  "fst (phase_call c p) \<noteq> Inr () \<Longrightarrow>
     (\<exists>msg. fst (phase_call c p) = Inl (RuntimeError msg)) \<and> snd (phase_call c p) = p"
  by (cases c) (simp_all add: Phase_start_def Phase_enter_countdown_def Phase_complete_def
      split: if_splits)

text \<open>
  C3. On every phase, \<open>start()\<close> succeeds exactly in NOT_STARTED and leads to IN_PROGRESS,
  \<open>enter_countdown()\<close> succeeds exactly in IN_PROGRESS and leads to COUNTDOWN,
  \<open>complete()\<close> succeeds exactly in IN_PROGRESS or COUNTDOWN and leads to COMPLETED; a
  call that does not succeed raises a RuntimeError and leaves the phase as it was. Under
  any sequence of calls no step goes backward in the lifecycle, and from NOT_STARTED the
  distinct states visited form a prefix of NOT_STARTED, IN_PROGRESS, COUNTDOWN,
  COMPLETED or of NOT_STARTED, IN_PROGRESS, COMPLETED; both full paths are taken by some
  sequence of calls on a fresh phase.
\<close>

theorem phase_transitions:
  "(fst (Phase_start p) = Inr () \<longleftrightarrow> state p = NOT_STARTED) \<and>
   (fst (Phase_enter_countdown p) = Inr () \<longleftrightarrow> state p = IN_PROGRESS) \<and>
   (fst (Phase_complete p) = Inr () \<longleftrightarrow> state p = IN_PROGRESS \<or> state p = COUNTDOWN) \<and>
   (state p = NOT_STARTED \<longrightarrow> snd (Phase_start p) = p\<lparr>state := IN_PROGRESS\<rparr>) \<and>
   (state p = IN_PROGRESS \<longrightarrow> snd (Phase_enter_countdown p) = p\<lparr>state := COUNTDOWN\<rparr>) \<and>
   (state p = IN_PROGRESS \<or> state p = COUNTDOWN \<longrightarrow>
      snd (Phase_complete p) = p\<lparr>state := COMPLETED\<rparr>) \<and>
   (\<forall>c. fst (phase_call c p) \<noteq> Inr () \<longrightarrow>
      (\<exists>msg. fst (phase_call c p) = Inl (RuntimeError msg)) \<and> snd (phase_call c p) = p) \<and>
   (\<forall>c. state_rank (state p) \<le> state_rank (state (snd (phase_call c p)))) \<and>
   sorted (map state_rank (phase_trace cs p)) \<and>
   (state p = NOT_STARTED \<longrightarrow>
      remdups_adj (phase_trace cs p) \<in>
        {[NOT_STARTED], [NOT_STARTED, IN_PROGRESS], [NOT_STARTED, IN_PROGRESS, COUNTDOWN],
         [NOT_STARTED, IN_PROGRESS, COUNTDOWN, COMPLETED],
         [NOT_STARTED, IN_PROGRESS, COMPLETED]}) \<and>
   phase_trace [Start, EnterCountdown, Complete] (Phase_init ty d ins col) =
     [NOT_STARTED, IN_PROGRESS, COUNTDOWN, COMPLETED] \<and>
   phase_trace [Start, Complete] (Phase_init ty d ins col) =
     [NOT_STARTED, IN_PROGRESS, COMPLETED]"
proof -
  have succ:
    "fst (Phase_start p) = Inr () \<longleftrightarrow> state p = NOT_STARTED"
    "fst (Phase_enter_countdown p) = Inr () \<longleftrightarrow> state p = IN_PROGRESS"
    "fst (Phase_complete p) = Inr () \<longleftrightarrow> state p = IN_PROGRESS \<or> state p = COUNTDOWN"
    by (simp_all add: Phase_start_def Phase_enter_countdown_def Phase_complete_def)
  have post:
    "state p = NOT_STARTED \<longrightarrow> snd (Phase_start p) = p\<lparr>state := IN_PROGRESS\<rparr>"
    "state p = IN_PROGRESS \<longrightarrow> snd (Phase_enter_countdown p) = p\<lparr>state := COUNTDOWN\<rparr>"
    "state p = IN_PROGRESS \<or> state p = COUNTDOWN \<longrightarrow>
       snd (Phase_complete p) = p\<lparr>state := COMPLETED\<rparr>"
    by (simp_all add: Phase_start_def Phase_enter_countdown_def Phase_complete_def)
  have fail: "\<forall>c. fst (phase_call c p) \<noteq> Inr () \<longrightarrow>
      (\<exists>msg. fst (phase_call c p) = Inl (RuntimeError msg)) \<and> snd (phase_call c p) = p"
    using phase_call_failure by blast
  have rank: "\<forall>c. state_rank (state p) \<le> state_rank (state (snd (phase_call c p)))"
    using phase_call_rank by blast
  have paths: "state p = NOT_STARTED \<longrightarrow>
      remdups_adj (phase_trace cs p) \<in>
        {[NOT_STARTED], [NOT_STARTED, IN_PROGRESS], [NOT_STARTED, IN_PROGRESS, COUNTDOWN],
         [NOT_STARTED, IN_PROGRESS, COUNTDOWN, COMPLETED],
         [NOT_STARTED, IN_PROGRESS, COMPLETED]}"
    using phase_trace_paths [of cs p] by auto
  have full:
    "phase_trace [Start, EnterCountdown, Complete] (Phase_init ty d ins col) =
       [NOT_STARTED, IN_PROGRESS, COUNTDOWN, COMPLETED]"
    "phase_trace [Start, Complete] (Phase_init ty d ins col) =
       [NOT_STARTED, IN_PROGRESS, COMPLETED]"
    by (simp_all add: Phase_init_def Phase_start_def Phase_enter_countdown_def
        Phase_complete_def)
  from succ post fail rank phase_trace_sorted [of cs p] paths full show ?thesis
    by blast
qed

theorem phase_transitions_witness:
  "state (Phase_init HOLD 60 ''Hold'' ''yellow'') = NOT_STARTED \<and>
   fst (Phase_start (Phase_init HOLD 60 ''Hold'' ''yellow'')) = Inr () \<and>
   snd (Phase_start (Phase_init HOLD 60 ''Hold'' ''yellow''))
     = (Phase_init HOLD 60 ''Hold'' ''yellow'')\<lparr>state := IN_PROGRESS\<rparr> \<and>
   fst (phase_call Complete (Phase_init HOLD 60 ''Hold'' ''yellow'')) \<noteq> Inr () \<and>
   snd (phase_call Complete (Phase_init HOLD 60 ''Hold'' ''yellow''))
     = Phase_init HOLD 60 ''Hold'' ''yellow'' \<and>
   remdups_adj (phase_trace [Complete, Start, Start, Complete, EnterCountdown, Start]
      (Phase_init HOLD 60 ''Hold'' ''yellow'')) = [NOT_STARTED, IN_PROGRESS, COMPLETED]"
  using phase_transitions [of "Phase_init HOLD 60 ''Hold'' ''yellow''"
      "[Complete, Start, Start, Complete, EnterCountdown, Start]" HOLD 60 "''Hold''" "''yellow''"]
  by (simp add: Phase_init_def Phase_start_def Phase_enter_countdown_def Phase_complete_def)

section \<open>Timer\<close>

text \<open>
  C5. At every observation instant \<open>in_countdown()\<close> is true exactly when the timer is
  running, the countdown threshold is positive and the remaining time is in
  (0, countdown_threshold]; it is false at remaining time 0, false when the threshold is
  0 and false when the timer is not running.
\<close>

theorem timer_in_countdown:
  "in_countdown now t =
     (is_running t \<and> countdown_threshold t > 0 \<and>
      0 < remaining_time now t \<and> remaining_time now t \<le> countdown_threshold t)
   \<and> (remaining_time now t = 0 \<longrightarrow> \<not> in_countdown now t)
   \<and> (countdown_threshold t = 0 \<longrightarrow> \<not> in_countdown now t)
   \<and> (\<not> is_running t \<longrightarrow> \<not> in_countdown now t)"
  by (auto simp: in_countdown_def)

theorem timer_in_countdown_witness:
  "remaining_time 10 \<lparr>t_duration = 10, countdown_threshold = 5, start_time = Some 0,
      is_running = True\<rparr> = 0 \<and>
   \<not> in_countdown 10 \<lparr>t_duration = 10, countdown_threshold = 5, start_time = Some 0,
      is_running = True\<rparr>"
  using timer_in_countdown [of 10 "\<lparr>t_duration = 10, countdown_threshold = 5,
      start_time = Some 0, is_running = True\<rparr>"]
  by (simp add: remaining_time_def elapsed_def)

text \<open>
  C9. After \<open>reset()\<close>, whatever the timer was doing, \<open>elapsed()\<close> is 0,
  \<open>remaining_time()\<close> is the full duration, \<open>is_expired()\<close> and \<open>in_countdown()\<close> are
  false, and \<open>start()\<close> succeeds, leaving the timer running from the instant of the call.
\<close>

theorem timer_reset_restartable:
  "elapsed now (Timer_reset t) = 0 \<and>
   remaining_time now (Timer_reset t) = t_duration t \<and>
   \<not> is_expired now (Timer_reset t) \<and>
   \<not> in_countdown now (Timer_reset t) \<and>
   \<not> is_running (Timer_reset t) \<and>
   Timer_start now' (Timer_reset t) =
     (Inr (), t\<lparr>start_time := Some now', is_running := True\<rparr>)"
  by (simp add: Timer_reset_def elapsed_def remaining_time_def is_expired_def
      in_countdown_def Timer_start_def)

theorem timer_reset_restartable_witness:
  "is_expired 7 \<lparr>t_duration = 5, countdown_threshold = 3, start_time = Some 1,
      is_running = True\<rparr> \<and>
   fst (Timer_start 7 \<lparr>t_duration = 5, countdown_threshold = 3, start_time = Some 1,
      is_running = True\<rparr>) = Inl (RuntimeError ''Timer is already running'') \<and>
   remaining_time 7 (Timer_reset \<lparr>t_duration = 5, countdown_threshold = 3,
      start_time = Some 1, is_running = True\<rparr>) = 5 \<and>
   Timer_start 8 (Timer_reset \<lparr>t_duration = 5, countdown_threshold = 3,
      start_time = Some 1, is_running = True\<rparr>) =
     (Inr (), \<lparr>t_duration = 5, countdown_threshold = 3, start_time = Some 8,
        is_running = True\<rparr>)"
  using timer_reset_restartable [of 7 "\<lparr>t_duration = 5, countdown_threshold = 3,
      start_time = Some 1, is_running = True\<rparr>" 8]
  by (simp add: is_expired_def elapsed_def Timer_start_def Timer_reset_def)

section \<open>Configuration validation and phase generation\<close>

lemma validate_steps_ok:
  "validate_steps i ds = Inr () \<longleftrightarrow> (\<forall>d\<in>set ds. 1 \<le> d \<and> d \<le> 120)"
  by (induction ds arbitrary: i) auto

lemma validate_steps_error:
  "validate_steps i ds = Inl e \<Longrightarrow> \<exists>msg. e = ValueError msg \<and> msg \<noteq> []"
  by (induction ds arbitrary: i) (auto split: if_splits)

lemma validate_ok:
  "validate c = Inr () \<longleftrightarrow>
     1 \<le> hold_duration c \<and> hold_duration c \<le> 300 \<and> step_durations c \<noteq> [] \<and>
     (\<forall>d\<in>set (step_durations c). 1 \<le> d \<and> d \<le> 120) \<and>
     0 \<le> countdown_beep_threshold c \<and> 0 \<le> preparation_duration c"
proof -
  have "validate_steps 0 (step_durations c) = Inr () \<longleftrightarrow>
      (\<forall>d\<in>set (step_durations c). 1 \<le> d \<and> d \<le> 120)"
    by (rule validate_steps_ok)
  then show ?thesis
    unfolding validate_def by (cases "validate_steps 0 (step_durations c)") auto
qed

lemma validate_error:
  "validate c = Inl e \<Longrightarrow> \<exists>msg. e = ValueError msg \<and> msg \<noteq> []"
  unfolding validate_def
  by (auto split: if_splits sum.splits dest: validate_steps_error)

lemma str_int_301: "str_int 301 = ''301''"
  by code_simp

text \<open>
  C7. Constructing an ExerciseConfig succeeds exactly when hold_duration is in [1, 300],
  step_durations is non-empty with every element in [1, 120], countdown_beep_threshold
  is at least 0 and preparation_duration is at least 0; otherwise the construction raises
  a ValueError with a message and no configuration exists. With a hold duration in range,
  an empty step list raises the message that step durations cannot be empty, and a hold
  duration of 301 raises the message citing the 300-second bound.
\<close>

theorem config_validation:
  "((\<exists>c. ExerciseConfig_init h ss cd prep audio mode = Inr c) \<longleftrightarrow>
      1 \<le> h \<and> h \<le> 300 \<and> ss \<noteq> [] \<and> (\<forall>d\<in>set ss. 1 \<le> d \<and> d \<le> 120) \<and> 0 \<le> cd \<and> 0 \<le> prep) \<and>
   (validate c = Inr () \<longleftrightarrow>
      1 \<le> hold_duration c \<and> hold_duration c \<le> 300 \<and> step_durations c \<noteq> [] \<and>
      (\<forall>d\<in>set (step_durations c). 1 \<le> d \<and> d \<le> 120) \<and>
      0 \<le> countdown_beep_threshold c \<and> 0 \<le> preparation_duration c) \<and>
   ((\<exists>c. ExerciseConfig_init h ss cd prep audio mode = Inr c) \<or>
    (\<exists>msg. msg \<noteq> [] \<and> ExerciseConfig_init h ss cd prep audio mode = Inl (ValueError msg))) \<and>
   (1 \<le> h \<and> h \<le> 300 \<longrightarrow>
      ExerciseConfig_init h [] cd prep audio mode =
        Inl (ValueError
          ''Step durations cannot be empty. Provide at least one breathing step duration.'')) \<and>
   ExerciseConfig_init 301 ss cd prep audio mode =
     Inl (ValueError ''Hold duration cannot exceed 300 seconds (got 301)'')"
proof -
  let ?c = "\<lparr>hold_duration = h, step_durations = ss, countdown_beep_threshold = cd,
              preparation_duration = prep, audio_enabled = audio, display_mode = mode\<rparr>"
  have init: "ExerciseConfig_init h ss cd prep audio mode =
      (case validate ?c of Inl e \<Rightarrow> Inl e | Inr _ \<Rightarrow> Inr ?c)"
    by (simp add: ExerciseConfig_init_def Let_def)
  have iff: "(\<exists>c. ExerciseConfig_init h ss cd prep audio mode = Inr c) \<longleftrightarrow> validate ?c = Inr ()"
    unfolding init by (cases "validate ?c") auto
  have a: "(\<exists>c. ExerciseConfig_init h ss cd prep audio mode = Inr c) \<longleftrightarrow>
      1 \<le> h \<and> h \<le> 300 \<and> ss \<noteq> [] \<and> (\<forall>d\<in>set ss. 1 \<le> d \<and> d \<le> 120) \<and> 0 \<le> cd \<and> 0 \<le> prep"
    unfolding iff validate_ok by simp
  have b: "(\<exists>c. ExerciseConfig_init h ss cd prep audio mode = Inr c) \<or>
    (\<exists>msg. msg \<noteq> [] \<and> ExerciseConfig_init h ss cd prep audio mode = Inl (ValueError msg))"
  proof (cases "validate ?c")
    case (Inl e)
    with validate_error [of ?c e] show ?thesis unfolding init by auto
  next
    case (Inr u)
    then show ?thesis unfolding init by simp
  qed
  have c: "1 \<le> h \<and> h \<le> 300 \<longrightarrow>
      ExerciseConfig_init h [] cd prep audio mode =
        Inl (ValueError
          ''Step durations cannot be empty. Provide at least one breathing step duration.'')"
    by (simp add: ExerciseConfig_init_def validate_def)
  have d: "ExerciseConfig_init 301 ss cd prep audio mode =
     Inl (ValueError ''Hold duration cannot exceed 300 seconds (got 301)'')"
    by (simp add: ExerciseConfig_init_def validate_def str_int_301)
  from a validate_ok [of c] b c d show ?thesis by blast
qed

theorem config_validation_witness:
  "(\<exists>c. ExerciseConfig_init 60 [30, 20, 10] 5 0 True TUI = Inr c) \<and>
   validate default_config = Inr () \<and>
   (1::int) \<le> 60 \<and> (60::int) \<le> 300 \<and>
   ExerciseConfig_init 60 [] 5 0 True TUI =
     Inl (ValueError
       ''Step durations cannot be empty. Provide at least one breathing step duration.'')"
  using config_validation [of 60 "[30, 20, 10]" 5 0 True TUI default_config]
    config_validation [of 60 "[]" 5 0 True TUI default_config]
  by (simp add: default_config_def)

lemma format_duration_literal: "format_duration BREATHING_INSTRUCTION d = ''Breathe''"
  by (simp add: BREATHING_INSTRUCTION_def)

lemma append_steps_closed:
  "append_steps cfg ps ds =
     ps @ concat (map (\<lambda>d. [Phase_init BREATHING d ''Breathe'' ''cyan'',
                             Phase_init HOLD (hold_duration cfg) ''Hold'' ''yellow'']) ds)"
  by (induction ds arbitrary: ps)
     (simp_all add: format_duration_literal HOLD_INSTRUCTION_def PHASE_COLORS_def)

lemma generate_phases_closed:
  "generate_phases cfg =
     (if preparation_duration cfg > 0
      then [Phase_init BREATHING (preparation_duration cfg) ''Prepare'' ''blue''] else [])
     @ concat (map (\<lambda>d. [Phase_init BREATHING d ''Breathe'' ''cyan'',
                           Phase_init HOLD (hold_duration cfg) ''Hold'' ''yellow''])
                (step_durations cfg))
     @ [Phase_init BREATHING 1 ''Complete'' ''blue'']"
  by (simp add: generate_phases_def append_steps_closed PREPARATION_INSTRUCTION_def)

text \<open>
  C1 (as the code has it). For every configuration the generated sequence is: one leading
  Breathing phase of duration preparation_duration labeled "Prepare" exactly when
  preparation_duration is positive; then for each step duration d, in order, a Breathing
  phase of duration d labeled "Breathe" followed by a Hold phase of duration hold_duration
  labeled "Hold"; then one Breathing phase of duration 1 labeled "Complete". The label
  of a step's Breathing phase is the template BREATHING_INSTRUCTION, which has no
  replacement field, so it never shows the duration. For hold 60, steps [30, 20, 10],
  countdown 5 and no preparation there are 7 phases: Breathe(30), Hold(60), Breathe(20),
  Hold(60), Breathe(10), Hold(60), Complete(1).
\<close>

theorem generate_phases_sequence:
  "generate_phases cfg =
     (if preparation_duration cfg > 0
      then [Phase_init BREATHING (preparation_duration cfg) ''Prepare'' ''blue''] else [])
     @ concat (map (\<lambda>d. [Phase_init BREATHING d ''Breathe'' ''cyan'',
                           Phase_init HOLD (hold_duration cfg) ''Hold'' ''yellow''])
                (step_durations cfg))
     @ [Phase_init BREATHING 1 ''Complete'' ''blue''] \<and>
   (hold_duration cfg = 60 \<and> step_durations cfg = [30, 20, 10] \<and>
    countdown_beep_threshold cfg = 5 \<and> preparation_duration cfg = 0 \<longrightarrow>
      map (\<lambda>p. (ptype p, duration p, instruction p)) (generate_phases cfg) =
        [(BREATHING, 30, ''Breathe''), (HOLD, 60, ''Hold''), (BREATHING, 20, ''Breathe''),
         (HOLD, 60, ''Hold''), (BREATHING, 10, ''Breathe''), (HOLD, 60, ''Hold''),
         (BREATHING, 1, ''Complete'')] \<and>
      length (generate_phases cfg) = 7)"
  by (simp add: generate_phases_closed Phase_init_def)

theorem generate_phases_sequence_witness:
  "hold_duration default_config = 60 \<and> step_durations default_config = [30, 20, 10] \<and>
   countdown_beep_threshold default_config = 5 \<and> preparation_duration default_config = 0 \<and>
   map (\<lambda>p. (ptype p, duration p, instruction p)) (generate_phases default_config) =
        [(BREATHING, 30, ''Breathe''), (HOLD, 60, ''Hold''), (BREATHING, 20, ''Breathe''),
         (HOLD, 60, ''Hold''), (BREATHING, 10, ''Breathe''), (HOLD, 60, ''Hold''),
         (BREATHING, 1, ''Complete'')] \<and>
   length (generate_phases default_config) = 7"
  using generate_phases_sequence [of default_config]
  by (simp add: default_config_def Phase_init_def)

text \<open>
  The label of the first phase of the default configuration is "Breathe", not
  "Breathe 30s".
\<close>

theorem breathing_label_counterexample:
  "instruction (generate_phases default_config ! 0) = ''Breathe'' \<and>
   instruction (generate_phases default_config ! 0) \<noteq> ''Breathe 30s'' \<and>
   map instruction (generate_phases default_config) \<noteq>
     [''Breathe 30s'', ''Hold'', ''Breathe 20s'', ''Hold'', ''Breathe 10s'', ''Hold'', ''Complete'']"
  by (simp add: generate_phases_def default_config_def Phase_init_def
      BREATHING_INSTRUCTION_def HOLD_INSTRUCTION_def PHASE_COLORS_def)

section \<open>Exercise\<close>

lemma generate_phases_not_started:
  "p \<in> set (generate_phases cfg) \<Longrightarrow> state p = NOT_STARTED"
  by (auto simp: generate_phases_closed Phase_init_def split: if_splits)

lemma generate_phases_positive:
  assumes "validate cfg = Inr ()" "p \<in> set (generate_phases cfg)"
  shows "0 < duration p"
proof -
  from assms(1) have "1 \<le> hold_duration cfg" "\<forall>d\<in>set (step_durations cfg). 1 \<le> d"
    by (simp_all add: validate_ok)
  with assms(2) show ?thesis
    by (auto simp: generate_phases_closed Phase_init_def split: if_splits)
qed

lemma generate_phases_nonempty: "generate_phases cfg \<noteq> []"
  by (simp add: generate_phases_closed)

lemma generate_phases_reset_state:
  "map (\<lambda>p. p\<lparr>state := NOT_STARTED\<rparr>) (generate_phases cfg) = generate_phases cfg"
  by (rule map_idI) (simp add: generate_phases_not_started)

lemma complete_phase_at_ok:
  "i < length (phases e) \<Longrightarrow> state (phases e ! i) \<in> {IN_PROGRESS, COUNTDOWN} \<Longrightarrow>
   complete_phase_at i e =
     (Inr (), e\<lparr>phases := (phases e)[i := (phases e ! i)\<lparr>state := COMPLETED\<rparr>]\<rparr>)"
  by (auto simp: complete_phase_at_def Phase_complete_def)

lemma start_phase_at_ok:
  "i < length (phases e) \<Longrightarrow> state (phases e ! i) = NOT_STARTED \<Longrightarrow>
   start_phase_at i e =
     (Inr (), e\<lparr>phases := (phases e)[i := (phases e ! i)\<lparr>state := IN_PROGRESS\<rparr>]\<rparr>)"
  by (simp add: start_phase_at_def Phase_start_def)

lemma new_timer_ok:
  "0 < duration p \<Longrightarrow> 0 \<le> countdown_beep_threshold (config e) \<Longrightarrow>
   new_timer now p e =
     (Inr (), e\<lparr>timer := Some \<lparr>t_duration = of_int (duration p),
        countdown_threshold = of_int (countdown_beep_threshold (config e)),
        start_time = Some now, is_running = True\<rparr>\<rparr>)"
  by (simp add: new_timer_def Timer_init_def Timer_start_def)

lemma Exercise_start_ok:
  assumes "\<not> started e" "\<not> completed e" "validate (config e) = Inr ()"
  shows "Exercise_start now e =
     (Inr (), e\<lparr>phases := (generate_phases (config e))
                  [0 := (generate_phases (config e) ! 0)\<lparr>state := IN_PROGRESS\<rparr>],
               current_phase_index := Some 0,
               timer := Some \<lparr>t_duration = of_int (duration (generate_phases (config e) ! 0)),
                  countdown_threshold = of_int (countdown_beep_threshold (config e)),
                  start_time = Some now, is_running = True\<rparr>,
               started := True, completed := False\<rparr>)"
proof -
  let ?g = "generate_phases (config e)"
  let ?e2 = "e\<lparr>phases := ?g, started := True, completed := False,
      current_phase_index := Some 0\<rparr>"
  have len: "0 < length ?g" using generate_phases_nonempty [of "config e"] by simp
  then have mem: "?g ! 0 \<in> set ?g" by simp
  have ns: "state (?g ! 0) = NOT_STARTED" using mem by (rule generate_phases_not_started)
  have pos: "0 < duration (?g ! 0)" using assms(3) mem by (rule generate_phases_positive)
  have thr: "0 \<le> countdown_beep_threshold (config e)" using assms(3) by (simp add: validate_ok)
  have s1: "start_phase_at 0 ?e2 = (Inr (), ?e2\<lparr>phases := ?g[0 := (?g ! 0)\<lparr>state := IN_PROGRESS\<rparr>]\<rparr>)"
    using start_phase_at_ok [of 0 ?e2] len ns by simp
  let ?e3 = "?e2\<lparr>phases := ?g[0 := (?g ! 0)\<lparr>state := IN_PROGRESS\<rparr>]\<rparr>"
  have s2: "new_timer now (phases ?e3 ! 0) ?e3 =
     (Inr (), ?e3\<lparr>timer := Some \<lparr>t_duration = of_int (duration (phases ?e3 ! 0)),
        countdown_threshold = of_int (countdown_beep_threshold (config ?e3)),
        start_time = Some now, is_running = True\<rparr>\<rparr>)"
    by (rule new_timer_ok) (use len pos thr in simp_all)
  show ?thesis
    unfolding Exercise_start_def using assms(1,2) s1 s2 len by (simp add: Let_def)
qed

lemma advance_phase_next:
  assumes "started e" "\<not> completed e" "timer e = Some t" "is_expired now t"
    "current_phase_index e = Some i" "i + 1 < length (phases e)"
    "state (phases e ! i) \<in> {IN_PROGRESS, COUNTDOWN}"
    "state (phases e ! (i + 1)) = NOT_STARTED"
    "0 < duration (phases e ! (i + 1))" "0 \<le> countdown_beep_threshold (config e)"
  shows "advance_phase now now' e =
     (Inr True,
      e\<lparr>phases := (phases e)[i := (phases e ! i)\<lparr>state := COMPLETED\<rparr>,
                               i + 1 := (phases e ! (i + 1))\<lparr>state := IN_PROGRESS\<rparr>],
        current_phase_index := Some (i + 1),
        timer := Some \<lparr>t_duration = of_int (duration (phases e ! (i + 1))),
           countdown_threshold = of_int (countdown_beep_threshold (config e)),
           start_time = Some now', is_running = True\<rparr>\<rparr>)"
proof -
  let ?ps1 = "(phases e)[i := (phases e ! i)\<lparr>state := COMPLETED\<rparr>]"
  let ?e1 = "e\<lparr>phases := ?ps1\<rparr>"
  have c: "complete_phase_at i e = (Inr (), ?e1)"
    using assms(6,7) by (intro complete_phase_at_ok) simp_all
  let ?e2 = "?e1\<lparr>current_phase_index := Some (i + 1)\<rparr>"
  have nth: "phases ?e2 ! (i + 1) = phases e ! (i + 1)" by simp
  have s: "start_phase_at (i + 1) ?e2 =
      (Inr (), ?e2\<lparr>phases := (phases ?e2)[i + 1 := (phases ?e2 ! (i + 1))\<lparr>state := IN_PROGRESS\<rparr>]\<rparr>)"
    by (rule start_phase_at_ok) (use assms(6,8) in simp_all)
  let ?e3 = "?e2\<lparr>phases := (phases ?e2)[i + 1 := (phases ?e2 ! (i + 1))\<lparr>state := IN_PROGRESS\<rparr>]\<rparr>"
  have t: "new_timer now' (phases ?e3 ! (i + 1)) ?e3 =
     (Inr (), ?e3\<lparr>timer := Some \<lparr>t_duration = of_int (duration (phases ?e3 ! (i + 1))),
        countdown_threshold = of_int (countdown_beep_threshold (config ?e3)),
        start_time = Some now', is_running = True\<rparr>\<rparr>)"
    by (rule new_timer_ok) (use assms(6,9,10) in simp_all)
  show ?thesis
    unfolding advance_phase_def using assms(1-6) c s t by (simp add: Let_def)
qed

lemma advance_phase_last:
  assumes "started e" "\<not> completed e" "timer e = Some t" "is_expired now t"
    "current_phase_index e = Some i" "i + 1 = length (phases e)"
    "state (phases e ! i) \<in> {IN_PROGRESS, COUNTDOWN}"
  shows "advance_phase now now' e =
     (Inr False,
      e\<lparr>phases := (phases e)[i := (phases e ! i)\<lparr>state := COMPLETED\<rparr>],
        current_phase_index := None, completed := True\<rparr>)"
proof -
  let ?ps1 = "(phases e)[i := (phases e ! i)\<lparr>state := COMPLETED\<rparr>]"
  let ?e1 = "e\<lparr>phases := ?ps1\<rparr>"
  have c: "complete_phase_at i e = (Inr (), ?e1)"
    using assms(6,7) by (intro complete_phase_at_ok) simp_all
  show ?thesis
    unfolding advance_phase_def using assms(1-6) c by simp
qed

lemma advance_phase_not_expired:
  "started e \<Longrightarrow> \<not> completed e \<Longrightarrow> timer e = Some t \<Longrightarrow> \<not> is_expired now t \<Longrightarrow>
   advance_phase now now' e = (Inl (RuntimeError ''Current phase not complete''), e)"
  by (simp add: advance_phase_def)

lemma list_all_take_nth:
  "list_all P (take i xs) \<longleftrightarrow> (\<forall>j. j < i \<and> j < length xs \<longrightarrow> P (xs ! j))"
  by (auto simp: list_all_length)

lemma list_all_drop_nth:
  "list_all P (drop k xs) \<longleftrightarrow> (\<forall>j. k \<le> j \<and> j < length xs \<longrightarrow> P (xs ! j))"
proof
  assume a: "list_all P (drop k xs)"
  show "\<forall>j. k \<le> j \<and> j < length xs \<longrightarrow> P (xs ! j)"
  proof (intro allI impI)
    fix j assume j: "k \<le> j \<and> j < length xs"
    then have "j - k < length (drop k xs)" by auto
    with a have "P (drop k xs ! (j - k))" by (simp add: list_all_length)
    with j show "P (xs ! j)" by simp
  qed
next
  assume "\<forall>j. k \<le> j \<and> j < length xs \<longrightarrow> P (xs ! j)"
  then show "list_all P (drop k xs)" by (simp add: list_all_length)
qed

lemma map_update_same: "f y = f (xs ! i) \<Longrightarrow> map f (xs[i := y]) = map f xs"
proof (cases "i < length xs")
  case True
  assume "f y = f (xs ! i)"
  with True show ?thesis by (simp add: map_update list_update_same_conv)
next
  case False
  then have "xs[i := y] = xs" by (intro list_update_beyond) simp
  then show ?thesis by simp
qed

lemma map_reset_state_update:
  "map (\<lambda>p. p\<lparr>state := NOT_STARTED\<rparr>) (ps[i := (ps ! i)\<lparr>state := s\<rparr>]) =
   map (\<lambda>p. p\<lparr>state := NOT_STARTED\<rparr>) ps"
  by (rule map_update_same) simp

lemma default_config_valid: "validate default_config = Inr ()"
  by (simp add: validate_ok default_config_def)

lemma exercise_inv_init:
  "validate cfg = Inr () \<Longrightarrow> exercise_inv (Exercise_init (Some cfg))"
  "exercise_inv (Exercise_init None)"
  by (simp_all add: exercise_inv_def Exercise_init_def default_config_valid)

lemma exercise_inv_reset: "exercise_inv e \<Longrightarrow> exercise_inv (Exercise_reset e)"
  by (simp add: exercise_inv_def Exercise_reset_def)

lemma exercise_inv_completed_started: "exercise_inv e \<Longrightarrow> completed e \<Longrightarrow> started e"
  by (auto simp: exercise_inv_def split: if_splits)

text \<open>The facts the invariant gives about an exercise that is under way.\<close>

lemma exercise_inv_running:
  assumes "exercise_inv e" "started e" "\<not> completed e"
  obtains i t where "current_phase_index e = Some i" "timer e = Some t"
    "i < length (phases e)"
    "\<forall>j. j < i \<longrightarrow> state (phases e ! j) = COMPLETED"
    "state (phases e ! i) \<in> {IN_PROGRESS, COUNTDOWN}"
    "\<forall>j. i < j \<and> j < length (phases e) \<longrightarrow> state (phases e ! j) = NOT_STARTED"
    "is_running t" "start_time t \<noteq> None"
    "t_duration t = of_int (duration (phases e ! i))"
    "countdown_threshold t = of_int (countdown_beep_threshold (config e))"
proof -
  from assms obtain i t where it: "current_phase_index e = Some i" "timer e = Some t"
    by (auto simp: exercise_inv_def split: option.splits)
  with assms have f: "i < length (phases e)"
      "list_all is_completed (take i (phases e))"
      "is_in_progress (phases e ! i) \<or> is_in_countdown (phases e ! i)"
      "list_all is_not_started (drop (Suc i) (phases e))"
      "is_running t" "start_time t \<noteq> None"
      "t_duration t = of_int (duration (phases e ! i))"
      "countdown_threshold t = of_int (countdown_beep_threshold (config e))"
    by (simp_all add: exercise_inv_def)
  from f(1,2) have a: "\<forall>j. j < i \<longrightarrow> state (phases e ! j) = COMPLETED"
    by (simp add: list_all_take_nth is_completed_def)
  from f(3) have b: "state (phases e ! i) \<in> {IN_PROGRESS, COUNTDOWN}"
    by (auto simp: is_in_progress_def is_in_countdown_def)
  from f(4) have c: "\<forall>j. i < j \<and> j < length (phases e) \<longrightarrow> state (phases e ! j) = NOT_STARTED"
    by (simp add: list_all_drop_nth is_not_started_def Suc_le_eq)
  from that [OF it f(1) a b c f(5-8)] show thesis .
qed

lemma exercise_inv_durations:
  assumes "exercise_inv e" "started e" "j < length (phases e)"
  shows "0 < duration (phases e ! j)"
proof -
  let ?f = "\<lambda>p. p\<lparr>state := NOT_STARTED\<rparr>"
  from assms(1,2) have m: "map ?f (phases e) = generate_phases (config e)"
    and v: "validate (config e) = Inr ()"
    by (simp_all add: exercise_inv_def)
  from assms(3) have "?f (phases e ! j) = map ?f (phases e) ! j" by simp
  also have "\<dots> \<in> set (generate_phases (config e))"
    using assms(3) m by (metis length_map nth_mem)
  finally have "0 < duration (?f (phases e ! j))"
    using v generate_phases_positive by blast
  then show ?thesis by simp
qed

lemma exercise_inv_start: "exercise_inv e \<Longrightarrow> exercise_inv (snd (Exercise_start now e))"
proof -
  assume inv: "exercise_inv e"
  show ?thesis
  proof (cases "started e \<or> completed e")
    case True
    then have "snd (Exercise_start now e) = e" by (auto simp: Exercise_start_def)
    with inv show ?thesis by simp
  next
    case False
    let ?g = "generate_phases (config e)"
    from inv have v: "validate (config e) = Inr ()" by (simp add: exercise_inv_def)
    have ne: "0 < length ?g" using generate_phases_nonempty [of "config e"] by simp
    have st: "\<And>j. j < length ?g \<Longrightarrow> state (?g ! j) = NOT_STARTED"
      using generate_phases_not_started nth_mem by blast
    have m: "map (\<lambda>p. p\<lparr>state := NOT_STARTED\<rparr>) (?g[0 := (?g ! 0)\<lparr>state := IN_PROGRESS\<rparr>]) = ?g"
      by (simp only: map_reset_state_update generate_phases_reset_state)
    have d: "list_all is_not_started (drop (Suc 0) (?g[0 := (?g ! 0)\<lparr>state := IN_PROGRESS\<rparr>]))"
      using st by (simp add: list_all_drop_nth is_not_started_def)
    from False v show ?thesis
      using ne m d
      by (simp add: Exercise_start_ok exercise_inv_def is_in_progress_def)
  qed
qed

lemma exercise_inv_countdown:
  "exercise_inv e \<Longrightarrow> exercise_inv (snd (enter_countdown_current e))"
proof -
  assume inv: "exercise_inv e"
  show ?thesis
  proof (cases "started e \<and> \<not> completed e")
    case False
    then have "snd (enter_countdown_current e) = e"
      by (auto simp: enter_countdown_current_def get_current_phase_def)
    with inv show ?thesis by simp
  next
    case True
    with inv obtain i t where f: "current_phase_index e = Some i" "timer e = Some t"
      "i < length (phases e)"
      by (auto elim: exercise_inv_running)
    show ?thesis
    proof (cases "state (phases e ! i) = IN_PROGRESS")
      case False
      with True f have "snd (enter_countdown_current e) = e"
        by (simp add: enter_countdown_current_def get_current_phase_def Phase_enter_countdown_def)
      with inv show ?thesis by simp
    next
      case ip: True
      with True f have eq: "snd (enter_countdown_current e) =
          e\<lparr>phases := (phases e)[i := (phases e ! i)\<lparr>state := COUNTDOWN\<rparr>]\<rparr>"
        by (simp add: enter_countdown_current_def get_current_phase_def Phase_enter_countdown_def)
      from inv True f show ?thesis
        unfolding eq
        by (simp add: exercise_inv_def map_reset_state_update is_in_countdown_def)
    qed
  qed
qed

lemma exercise_inv_advance:
  "exercise_inv e \<Longrightarrow> exercise_inv (snd (advance_phase now now' e))"
proof -
  assume inv: "exercise_inv e"
  show ?thesis
  proof (cases "started e \<and> \<not> completed e")
    case False
    then have "snd (advance_phase now now' e) = e" by (auto simp: advance_phase_def)
    with inv show ?thesis by simp
  next
    case True
    from inv True obtain i t where f: "current_phase_index e = Some i" "timer e = Some t"
      "i < length (phases e)"
      "\<forall>j. j < i \<longrightarrow> state (phases e ! j) = COMPLETED"
      "state (phases e ! i) \<in> {IN_PROGRESS, COUNTDOWN}"
      "\<forall>j. i < j \<and> j < length (phases e) \<longrightarrow> state (phases e ! j) = NOT_STARTED"
      by (auto elim: exercise_inv_running)
    from inv True have m: "map (\<lambda>p. p\<lparr>state := NOT_STARTED\<rparr>) (phases e) = generate_phases (config e)"
      and v: "validate (config e) = Inr ()"
      by (simp_all add: exercise_inv_def)
    show ?thesis
    proof (cases "is_expired now t")
      case False
      with True f have "snd (advance_phase now now' e) = e"
        by (simp add: advance_phase_not_expired)
      with inv show ?thesis by simp
    next
      case exp: True
      show ?thesis
      proof (cases "i + 1 < length (phases e)")
        case False
        with f(3) have last: "i + 1 = length (phases e)" by simp
        have eq: "advance_phase now now' e =
            (Inr False, e\<lparr>phases := (phases e)[i := (phases e ! i)\<lparr>state := COMPLETED\<rparr>],
                current_phase_index := None, completed := True\<rparr>)"
          using True f(2) exp f(1) last f(5) by (intro advance_phase_last) simp_all
        have "list_all is_completed ((phases e)[i := (phases e ! i)\<lparr>state := COMPLETED\<rparr>])"
          using f(4) last
          by (auto simp: list_all_length is_completed_def nth_list_update)
        with True v m show ?thesis
          unfolding eq by (simp add: exercise_inv_def map_reset_state_update)
      next
        case nxt: True
        have pos: "0 < duration (phases e ! (i + 1))"
          using inv True nxt by (intro exercise_inv_durations) simp_all
        have thr: "0 \<le> countdown_beep_threshold (config e)" using v by (simp add: validate_ok)
        have ns: "state (phases e ! (i + 1)) = NOT_STARTED" using f(6) nxt by simp
        let ?ps = "(phases e)[i := (phases e ! i)\<lparr>state := COMPLETED\<rparr>,
                               i + 1 := (phases e ! (i + 1))\<lparr>state := IN_PROGRESS\<rparr>]"
        have eq: "advance_phase now now' e =
           (Inr True, e\<lparr>phases := ?ps, current_phase_index := Some (i + 1),
              timer := Some \<lparr>t_duration = of_int (duration (phases e ! (i + 1))),
                countdown_threshold = of_int (countdown_beep_threshold (config e)),
                start_time = Some now', is_running = True\<rparr>\<rparr>)"
          using True f(2) exp f(1) nxt f(5) ns pos thr
          by (intro advance_phase_next) simp_all
        have m': "map (\<lambda>p. p\<lparr>state := NOT_STARTED\<rparr>) ?ps = generate_phases (config e)"
        proof -
          have "map (\<lambda>p. p\<lparr>state := NOT_STARTED\<rparr>) ?ps
              = map (\<lambda>p. p\<lparr>state := NOT_STARTED\<rparr>)
                  ((phases e)[i := (phases e ! i)\<lparr>state := COMPLETED\<rparr>])"
            by (rule map_update_same) simp
          also have "\<dots> = map (\<lambda>p. p\<lparr>state := NOT_STARTED\<rparr>) (phases e)"
            by (rule map_reset_state_update)
          finally have "map (\<lambda>p. p\<lparr>state := NOT_STARTED\<rparr>) ?ps
              = map (\<lambda>p. p\<lparr>state := NOT_STARTED\<rparr>) (phases e)" .
          with m show ?thesis by simp
        qed
        have a: "list_all is_completed (take (i + 1) ?ps)"
          using f(4) nxt
          by (auto simp: list_all_take_nth is_completed_def nth_list_update less_Suc_eq)
        have b: "list_all is_not_started (drop (Suc (i + 1)) ?ps)"
          using f(6) nxt
          by (auto simp: list_all_drop_nth is_not_started_def nth_list_update)
        from True v m' a b nxt show ?thesis
          unfolding eq by (simp add: exercise_inv_def is_in_progress_def)
      qed
    qed
  qed
qed

lemma reachable_inv: "reachable e \<Longrightarrow> exercise_inv e"
  by (induction rule: reachable.induct)
     (simp_all add: exercise_inv_init exercise_inv_start exercise_inv_advance
        exercise_inv_countdown exercise_inv_reset)

text \<open>
  C4. In every state of an Exercise produced by its interface and the render loop
  (construction on a validated configuration, then any calls of start, advance_phase and
  reset, and the loop's enter_countdown on the current phase): while the exercise is
  started and not completed, current_phase_index is an index into the phase list, the
  phase there is IN_PROGRESS or COUNTDOWN, every phase before it is COMPLETED and every
  phase after it is NOT_STARTED; current_phase_index is None before start and after
  completion.
\<close>

theorem exercise_phase_invariant:
  "reachable e \<Longrightarrow>
   (started e \<and> \<not> completed e \<longrightarrow>
      (\<exists>i. current_phase_index e = Some i \<and> i < length (phases e) \<and>
           (state (phases e ! i) = IN_PROGRESS \<or> state (phases e ! i) = COUNTDOWN) \<and>
           (\<forall>j. j < i \<longrightarrow> state (phases e ! j) = COMPLETED) \<and>
           (\<forall>j. i < j \<and> j < length (phases e) \<longrightarrow> state (phases e ! j) = NOT_STARTED))) \<and>
   (\<not> started e \<longrightarrow> current_phase_index e = None) \<and>
   (completed e \<longrightarrow> current_phase_index e = None)"
proof -
  assume "reachable e"
  then have inv: "exercise_inv e" by (rule reachable_inv)
  have a: "\<exists>i. current_phase_index e = Some i \<and> i < length (phases e) \<and>
           (state (phases e ! i) = IN_PROGRESS \<or> state (phases e ! i) = COUNTDOWN) \<and>
           (\<forall>j. j < i \<longrightarrow> state (phases e ! j) = COMPLETED) \<and>
           (\<forall>j. i < j \<and> j < length (phases e) \<longrightarrow> state (phases e ! j) = NOT_STARTED)"
    if "started e" "\<not> completed e"
    using inv that by (rule exercise_inv_running) auto
  have b: "\<not> started e \<longrightarrow> current_phase_index e = None"
    using inv by (simp add: exercise_inv_def)
  have c: "completed e \<longrightarrow> current_phase_index e = None"
    using inv by (auto simp: exercise_inv_def split: if_splits)
  from a b c show ?thesis by blast
qed

lemma started_default:
  "Exercise_start now (Exercise_init None) =
     (Inr (), \<lparr>config = default_config,
        phases = [\<lparr>ptype = BREATHING, duration = 30, instruction = ''Breathe'', color = ''cyan'',
                    state = IN_PROGRESS\<rparr>,
                  Phase_init HOLD 60 ''Hold'' ''yellow'',
                  Phase_init BREATHING 20 ''Breathe'' ''cyan'',
                  Phase_init HOLD 60 ''Hold'' ''yellow'',
                  Phase_init BREATHING 10 ''Breathe'' ''cyan'',
                  Phase_init HOLD 60 ''Hold'' ''yellow'',
                  Phase_init BREATHING 1 ''Complete'' ''blue''],
        current_phase_index = Some 0,
        timer = Some \<lparr>t_duration = 30, countdown_threshold = 5, start_time = Some now,
                       is_running = True\<rparr>,
        started = True, completed = False\<rparr>)"
proof -
  have g: "generate_phases default_config =
      [Phase_init BREATHING 30 ''Breathe'' ''cyan'', Phase_init HOLD 60 ''Hold'' ''yellow'',
       Phase_init BREATHING 20 ''Breathe'' ''cyan'', Phase_init HOLD 60 ''Hold'' ''yellow'',
       Phase_init BREATHING 10 ''Breathe'' ''cyan'', Phase_init HOLD 60 ''Hold'' ''yellow'',
       Phase_init BREATHING 1 ''Complete'' ''blue'']"
    by (simp add: generate_phases_closed default_config_def)
  have c: "config (Exercise_init None) = default_config" by (simp add: Exercise_init_def)
  have "Exercise_start now (Exercise_init None) = (Inr (), Exercise_init None
      \<lparr>phases := (generate_phases default_config)
          [0 := (generate_phases default_config ! 0)\<lparr>state := IN_PROGRESS\<rparr>],
        current_phase_index := Some 0,
        timer := Some \<lparr>t_duration = of_int (duration (generate_phases default_config ! 0)),
          countdown_threshold = of_int (countdown_beep_threshold default_config),
          start_time = Some now, is_running = True\<rparr>,
        started := True, completed := False\<rparr>)"
    using Exercise_start_ok [of "Exercise_init None" now] default_config_valid
    by (simp add: c) (simp add: Exercise_init_def)
  then show ?thesis
    by (simp add: g) (simp add: Exercise_init_def Phase_init_def default_config_def)
qed

theorem exercise_phase_invariant_witness:
  "reachable (snd (Exercise_start 0 (Exercise_init None))) \<and>
   started (snd (Exercise_start 0 (Exercise_init None))) \<and>
   \<not> completed (snd (Exercise_start 0 (Exercise_init None))) \<and>
   current_phase_index (snd (Exercise_start 0 (Exercise_init None))) = Some 0 \<and>
   state (phases (snd (Exercise_start 0 (Exercise_init None))) ! 0) = IN_PROGRESS \<and>
   state (phases (snd (Exercise_start 0 (Exercise_init None))) ! 1) = NOT_STARTED"
proof -
  have r: "reachable (snd (Exercise_start 0 (Exercise_init None)))"
    by (rule reachable.start) (rule reachable.init_default)
  from exercise_phase_invariant [OF r] r show ?thesis
    by (simp add: started_default Phase_init_def)
qed

text \<open>
  C2. In every such state, with the clock reading \<open>now\<close> for the expiry test and \<open>now'\<close>
  for the start of the next timer: on a started, not completed exercise whose timer is
  not expired, advance_phase raises "Current phase not complete" and leaves the whole
  object unchanged; on one whose timer is expired it marks the current phase COMPLETED
  and either moves the index forward by one, starts that phase, installs a fresh running
  timer built from that phase's duration and the configured countdown threshold and
  returns True, or, on the last phase, sets completed, clears the index and returns False.
  A started, not completed exercise always has a timer. On a never started exercise the
  call raises "Exercise not started", and on a completed one it returns False and changes
  nothing.
\<close>

theorem advance_phase_contract:
  "reachable e \<Longrightarrow>
   (started e \<and> \<not> completed e \<and> timer e = Some t \<and> \<not> is_expired now t \<longrightarrow>
      advance_phase now now' e = (Inl (RuntimeError ''Current phase not complete''), e)) \<and>
   (started e \<and> \<not> completed e \<and> timer e = Some t \<and> is_expired now t \<longrightarrow>
      (\<exists>i. current_phase_index e = Some i \<and> i < length (phases e) \<and>
         (if i + 1 < length (phases e) then
            advance_phase now now' e =
              (Inr True,
               e\<lparr>phases := (phases e)[i := (phases e ! i)\<lparr>state := COMPLETED\<rparr>,
                     i + 1 := (phases e ! (i + 1))\<lparr>state := IN_PROGRESS\<rparr>],
                 current_phase_index := Some (i + 1),
                 timer := Some \<lparr>t_duration = of_int (duration (phases e ! (i + 1))),
                    countdown_threshold = of_int (countdown_beep_threshold (config e)),
                    start_time = Some now', is_running = True\<rparr>\<rparr>)
          else
            advance_phase now now' e =
              (Inr False,
               e\<lparr>phases := (phases e)[i := (phases e ! i)\<lparr>state := COMPLETED\<rparr>],
                 current_phase_index := None, completed := True\<rparr>)))) \<and>
   (started e \<and> \<not> completed e \<longrightarrow> timer e \<noteq> None) \<and>
   (\<not> started e \<longrightarrow>
      advance_phase now now' e = (Inl (RuntimeError ''Exercise not started''), e)) \<and>
   (completed e \<longrightarrow> advance_phase now now' e = (Inr False, e))"
proof -
  assume "reachable e"
  then have inv: "exercise_inv e" by (rule reachable_inv)
  have a: "started e \<and> \<not> completed e \<and> timer e = Some t \<and> \<not> is_expired now t \<longrightarrow>
      advance_phase now now' e = (Inl (RuntimeError ''Current phase not complete''), e)"
    by (simp add: advance_phase_not_expired)
  have b: "\<exists>i. current_phase_index e = Some i \<and> i < length (phases e) \<and>
         (if i + 1 < length (phases e) then
            advance_phase now now' e =
              (Inr True,
               e\<lparr>phases := (phases e)[i := (phases e ! i)\<lparr>state := COMPLETED\<rparr>,
                     i + 1 := (phases e ! (i + 1))\<lparr>state := IN_PROGRESS\<rparr>],
                 current_phase_index := Some (i + 1),
                 timer := Some \<lparr>t_duration = of_int (duration (phases e ! (i + 1))),
                    countdown_threshold = of_int (countdown_beep_threshold (config e)),
                    start_time = Some now', is_running = True\<rparr>\<rparr>)
          else
            advance_phase now now' e =
              (Inr False,
               e\<lparr>phases := (phases e)[i := (phases e ! i)\<lparr>state := COMPLETED\<rparr>],
                 current_phase_index := None, completed := True\<rparr>))"
    if h: "started e" "\<not> completed e" "timer e = Some t" "is_expired now t"
  proof -
    from inv h(1,2) obtain i t' where f: "current_phase_index e = Some i" "timer e = Some t'"
      "i < length (phases e)"
      "state (phases e ! i) \<in> {IN_PROGRESS, COUNTDOWN}"
      "\<forall>j. i < j \<and> j < length (phases e) \<longrightarrow> state (phases e ! j) = NOT_STARTED"
      by (auto elim: exercise_inv_running)
    from inv have thr: "0 \<le> countdown_beep_threshold (config e)"
      by (simp add: exercise_inv_def validate_ok)
    show ?thesis
    proof (cases "i + 1 < length (phases e)")
      case True
      have pos: "0 < duration (phases e ! (i + 1))"
        using inv h(1) True by (rule exercise_inv_durations)
      have ns: "state (phases e ! (i + 1)) = NOT_STARTED" using f(5) True by simp
      from advance_phase_next [OF h f(1) True f(4) ns pos thr, of now'] f(1,3) True
      show ?thesis by simp
    next
      case False
      with f(3) have last: "i + 1 = length (phases e)" by simp
      from advance_phase_last [OF h f(1) last f(4), of now'] f(1,3) False
      show ?thesis by simp
    qed
  qed
  have c: "started e \<and> \<not> completed e \<longrightarrow> timer e \<noteq> None"
    using inv by (auto elim: exercise_inv_running)
  have d: "\<not> started e \<longrightarrow>
      advance_phase now now' e = (Inl (RuntimeError ''Exercise not started''), e)"
    by (simp add: advance_phase_def)
  have e: "completed e \<longrightarrow> advance_phase now now' e = (Inr False, e)"
    using exercise_inv_completed_started [OF inv] by (auto simp: advance_phase_def)
  from a b c d e show ?thesis by blast
qed

theorem advance_phase_contract_witness:
  "reachable (snd (Exercise_start 0 (Exercise_init None))) \<and>
   timer (snd (Exercise_start 0 (Exercise_init None))) =
     Some \<lparr>t_duration = 30, countdown_threshold = 5, start_time = Some 0, is_running = True\<rparr> \<and>
   \<not> is_expired 29 \<lparr>t_duration = 30, countdown_threshold = 5, start_time = Some 0,
       is_running = True\<rparr> \<and>
   fst (advance_phase 29 29 (snd (Exercise_start 0 (Exercise_init None)))) =
     Inl (RuntimeError ''Current phase not complete'') \<and>
   is_expired 30 \<lparr>t_duration = 30, countdown_threshold = 5, start_time = Some 0,
       is_running = True\<rparr> \<and>
   fst (advance_phase 30 31 (snd (Exercise_start 0 (Exercise_init None)))) = Inr True \<and>
   current_phase_index (snd (advance_phase 30 31 (snd (Exercise_start 0 (Exercise_init None)))))
     = Some 1 \<and>
   timer (snd (advance_phase 30 31 (snd (Exercise_start 0 (Exercise_init None))))) =
     Some \<lparr>t_duration = 60, countdown_threshold = 5, start_time = Some 31, is_running = True\<rparr>"
proof -
  let ?e = "snd (Exercise_start 0 (Exercise_init None))"
  let ?t = "\<lparr>t_duration = 30, countdown_threshold = 5, start_time = Some 0, is_running = True\<rparr>"
  have r: "reachable ?e"
    by (rule reachable.start) (rule reachable.init_default)
  have t: "timer ?e = Some ?t" "started ?e" "\<not> completed ?e" "current_phase_index ?e = Some 0"
    "length (phases ?e) = 7"
    by (simp_all add: started_default)
  have x: "\<not> is_expired 29 ?t" "is_expired 30 ?t"
    by (simp_all add: is_expired_def elapsed_def)
  from advance_phase_contract [OF r, of ?t 29 29] advance_phase_contract [OF r, of ?t 30 31]
    r t x
  show ?thesis
    by (simp add: started_default Phase_init_def default_config_def)
qed

text \<open>
  C10. For every exercise on a validated configuration, whatever its state, reset() gives
  the state of a freshly constructed exercise on the same configuration (no phases, no
  index, no timer, both flags cleared), and start() after it succeeds: it regenerates
  the phases from the stored configuration, starts the first one and installs a running
  timer for it. On a completed exercise start() without reset() raises the "already
  completed" error and changes nothing.
\<close>

theorem exercise_reset_restart:
  "validate (config e) = Inr () \<Longrightarrow>
   Exercise_reset e = Exercise_init (Some (config e)) \<and>
   phases (Exercise_reset e) = [] \<and> current_phase_index (Exercise_reset e) = None \<and>
   timer (Exercise_reset e) = None \<and> \<not> started (Exercise_reset e) \<and>
   \<not> completed (Exercise_reset e) \<and> config (Exercise_reset e) = config e \<and>
   Exercise_start now (Exercise_reset e) =
     (Inr (),
      \<lparr>config = config e,
       phases = (generate_phases (config e))
                  [0 := (generate_phases (config e) ! 0)\<lparr>state := IN_PROGRESS\<rparr>],
       current_phase_index = Some 0,
       timer = Some \<lparr>t_duration = of_int (duration (generate_phases (config e) ! 0)),
                  countdown_threshold = of_int (countdown_beep_threshold (config e)),
                  start_time = Some now, is_running = True\<rparr>,
       started = True, completed = False\<rparr>) \<and>
   (completed e \<longrightarrow>
      Exercise_start now e =
        (Inl (RuntimeError ''Exercise already completed. Call reset() to start again''), e))"
proof -
  assume v: "validate (config e) = Inr ()"
  have a: "Exercise_reset e = Exercise_init (Some (config e))"
    by (simp add: Exercise_reset_def Exercise_init_def)
  have b: "phases (Exercise_reset e) = []" "current_phase_index (Exercise_reset e) = None"
    "timer (Exercise_reset e) = None" "\<not> started (Exercise_reset e)"
    "\<not> completed (Exercise_reset e)" "config (Exercise_reset e) = config e"
    by (simp_all add: Exercise_reset_def)
  have c: "Exercise_start now (Exercise_reset e) =
     (Inr (),
      \<lparr>config = config e,
       phases = (generate_phases (config e))
                  [0 := (generate_phases (config e) ! 0)\<lparr>state := IN_PROGRESS\<rparr>],
       current_phase_index = Some 0,
       timer = Some \<lparr>t_duration = of_int (duration (generate_phases (config e) ! 0)),
                  countdown_threshold = of_int (countdown_beep_threshold (config e)),
                  start_time = Some now, is_running = True\<rparr>,
       started = True, completed = False\<rparr>)"
    using Exercise_start_ok [of "Exercise_reset e" now] v b
    by (simp add: Exercise_reset_def)
  have d: "completed e \<longrightarrow>
      Exercise_start now e =
        (Inl (RuntimeError ''Exercise already completed. Call reset() to start again''), e)"
    by (simp add: Exercise_start_def)
  from a b c d show ?thesis by blast
qed

theorem exercise_reset_restart_witness:
  "validate default_config = Inr () \<and>
   completed \<lparr>config = default_config, phases = [], current_phase_index = None,
      timer = None, started = True, completed = True\<rparr> \<and>
   fst (Exercise_start 3 \<lparr>config = default_config, phases = [], current_phase_index = None,
      timer = None, started = True, completed = True\<rparr>) =
     Inl (RuntimeError ''Exercise already completed. Call reset() to start again'') \<and>
   fst (Exercise_start 3 (Exercise_reset \<lparr>config = default_config, phases = [],
      current_phase_index = None, timer = None, started = True, completed = True\<rparr>)) = Inr () \<and>
   map state (phases (snd (Exercise_start 3 (Exercise_reset \<lparr>config = default_config,
      phases = [], current_phase_index = None, timer = None, started = True,
      completed = True\<rparr>)))) =
     [IN_PROGRESS, NOT_STARTED, NOT_STARTED, NOT_STARTED, NOT_STARTED, NOT_STARTED, NOT_STARTED]"
proof -
  let ?e = "\<lparr>config = default_config, phases = [], current_phase_index = None,
      timer = None, started = True, completed = True\<rparr>"
  have v: "validate (config ?e) = Inr ()" by (simp add: default_config_valid)
  have g: "generate_phases default_config =
      [Phase_init BREATHING 30 ''Breathe'' ''cyan'', Phase_init HOLD 60 ''Hold'' ''yellow'',
       Phase_init BREATHING 20 ''Breathe'' ''cyan'', Phase_init HOLD 60 ''Hold'' ''yellow'',
       Phase_init BREATHING 10 ''Breathe'' ''cyan'', Phase_init HOLD 60 ''Hold'' ''yellow'',
       Phase_init BREATHING 1 ''Complete'' ''blue'']"
    by (simp add: generate_phases_closed default_config_def)
  note w = exercise_reset_restart [OF v, of 3]
  have c: "completed ?e" by simp
  from w c have r1: "Exercise_start 3 ?e =
      (Inl (RuntimeError ''Exercise already completed. Call reset() to start again''), ?e)"
    by blast
  from w have r2: "Exercise_start 3 (Exercise_reset ?e) =
     (Inr (),
      \<lparr>config = config ?e,
       phases = (generate_phases (config ?e))
                  [0 := (generate_phases (config ?e) ! 0)\<lparr>state := IN_PROGRESS\<rparr>],
       current_phase_index = Some 0,
       timer = Some \<lparr>t_duration = of_int (duration (generate_phases (config ?e) ! 0)),
                  countdown_threshold = of_int (countdown_beep_threshold (config ?e)),
                  start_time = Some 3, is_running = True\<rparr>,
       started = True, completed = False\<rparr>)"
    by blast
  show ?thesis
    unfolding r1 r2 by (simp add: g Phase_init_def default_config_valid)
qed

section \<open>Render loop\<close>

lemma enter_countdown_current_frame:
  "config (snd (enter_countdown_current e)) = config e"
  "started (snd (enter_countdown_current e)) = started e"
  "completed (snd (enter_countdown_current e)) = completed e"
  "current_phase_index (snd (enter_countdown_current e)) = current_phase_index e"
  "timer (snd (enter_countdown_current e)) = timer e"
  by (simp_all add: enter_countdown_current_def split: sum.splits option.splits prod.splits)

lemma enter_countdown_current_in_progress:
  assumes "get_current_phase e = Inr (Some p)" "is_in_progress p"
  shows "fst (enter_countdown_current e) = Inr ()"
  using assms
  by (simp add: enter_countdown_current_def Phase_enter_countdown_def is_in_progress_def)

lemma redraw_frame:
  "exercise (redraw r p s) = exercise s" "reads (redraw r p s) = reads s"
  by (simp_all add: redraw_def Let_def)

lemma cue_ok_iff:
  "cue_ok cfg cur played (k, j, r) \<longleftrightarrow>
     audio_enabled cfg \<and>
     (\<exists>j'. j = Some j' \<and> j' < length (generate_phases cfg) \<and>
        ((k = ''countdown'' \<and> 1 \<le> r \<and> r \<le> countdown_beep_threshold cfg) \<or>
         (k = ''transition'' \<and> r = 0 \<and>
          instruction (generate_phases cfg ! j') \<noteq> ''Complete'')) \<and>
        (\<forall>i. cur = Some i \<longrightarrow> j' \<le> i \<and> (j' = i \<longrightarrow> r \<in> played)))"
  by (cases j; cases cur) (simp_all add: cue_ok_def)

lemma cue_ok_mono: "cue_ok cfg cur A c \<Longrightarrow> A \<subseteq> B \<Longrightarrow> cue_ok cfg cur B c"
  by (cases c) (auto simp: cue_ok_iff subset_iff)

lemma cue_ok_next: "cue_ok cfg (Some i) A c \<Longrightarrow> cue_ok cfg (Some (Suc i)) B c"
  by (cases c) (auto simp: cue_ok_iff)

lemma cue_ok_none: "cue_ok cfg cur A c \<Longrightarrow> cue_ok cfg None B c"
  by (cases c) (auto simp: cue_ok_iff)

lemma cues_ok_emit:
  assumes "cues_ok cfg s" "current_phase_index (exercise s) = Some i"
    "r \<notin> countdown_beeps_played s"
    "cue_ok cfg (Some i) (insert r (countdown_beeps_played s)) (k, Some i, r)"
  shows "cues_ok cfg (s\<lparr>beeps := beeps s @ [(k, Some i, r)],
            countdown_beeps_played := insert r (countdown_beeps_played s)\<rparr>)"
proof -
  from assms(1,2) have d: "distinct (beeps s)"
    and a: "\<forall>c\<in>set (beeps s). cue_ok cfg (Some i) (countdown_beeps_played s) c"
    by (simp_all add: cues_ok_def list_all_iff)
  have fresh: "(k, Some i, r) \<notin> set (beeps s)"
  proof
    assume "(k, Some i, r) \<in> set (beeps s)"
    with a have "cue_ok cfg (Some i) (countdown_beeps_played s) (k, Some i, r)" by blast
    then have "r \<in> countdown_beeps_played s" by (simp add: cue_ok_iff)
    with assms(3) show False by simp
  qed
  have "\<forall>c\<in>set (beeps s). cue_ok cfg (Some i) (insert r (countdown_beeps_played s)) c"
    using a by (blast intro: cue_ok_mono)
  with d fresh assms(2,4) show ?thesis
    by (simp add: cues_ok_def list_all_iff)
qed

lemma redraw_cues_ok:
  assumes ok: "cues_ok cfg s" and cfg: "config (exercise s) = cfg"
    and cur: "current_phase_index (exercise s) = Some i"
    and len: "i < length (generate_phases cfg)"
    and ins: "instruction p = instruction (generate_phases cfg ! i)"
  shows "cues_ok cfg (redraw r p s)"
proof -
  let ?A = "countdown_beeps_played s"
  let ?c1 = "audio_enabled cfg \<and> 1 \<le> r \<and> r \<le> countdown_beep_threshold cfg \<and> r \<notin> ?A"
  let ?c2 = "audio_enabled cfg \<and> r = 0 \<and> 0 \<notin> ?A \<and> instruction p \<noteq> ''Complete''"
  have ls: "cues_ok cfg (s'\<lparr>last_second := l\<rparr>) = cues_ok cfg s'" for s' l
    by (simp add: cues_ok_def)
  show ?thesis
  proof (cases "r = last_second s")
    case True
    with ok show ?thesis by (simp add: redraw_def)
  next
    case ne: False
    consider (cd) ?c1 | (tr) "\<not> ?c1" ?c2 | (none) "\<not> ?c1" "\<not> ?c2" by blast
    then show ?thesis
    proof cases
      case cd
      let ?s1 = "s\<lparr>beeps := beeps s @ [(''countdown'', Some i, r)],
                    countdown_beeps_played := insert r ?A\<rparr>"
      have "cue_ok cfg (Some i) (insert r ?A) (''countdown'', Some i, r)"
        using cd len by (simp add: cue_ok_iff)
      with ok cur cd have "cues_ok cfg ?s1" by (intro cues_ok_emit) simp_all
      moreover have "redraw r p s = ?s1\<lparr>last_second := r\<rparr>"
        using ne cd cfg cur by (simp add: redraw_def Let_def)
      ultimately show ?thesis by (simp add: ls)
    next
      case tr
      let ?s1 = "s\<lparr>beeps := beeps s @ [(''transition'', Some i, r)],
                    countdown_beeps_played := insert r ?A\<rparr>"
      have "cue_ok cfg (Some i) (insert r ?A) (''transition'', Some i, r)"
        using tr len ins by (simp add: cue_ok_iff)
      with ok cur tr have "cues_ok cfg ?s1" by (intro cues_ok_emit) simp_all
      moreover have "redraw r p s = ?s1\<lparr>last_second := r\<rparr>"
        using ne tr cfg cur by (auto simp: redraw_def Let_def)
      ultimately show ?thesis by (simp add: ls)
    next
      case none
      then have "redraw r p s = s\<lparr>last_second := r\<rparr>"
        using ne cfg by (auto simp: redraw_def Let_def)
      with ok show ?thesis by (simp add: ls)
    qed
  qed
qed

lemma cues_ok_same_index:
  "cues_ok cfg s \<Longrightarrow> current_phase_index ex = current_phase_index (exercise s) \<Longrightarrow>
   cues_ok cfg (s\<lparr>exercise := ex, reads := n\<rparr>)"
  by (simp add: cues_ok_def)

lemma cues_ok_next_index:
  "cues_ok cfg s \<Longrightarrow> current_phase_index (exercise s) = Some i \<Longrightarrow>
   current_phase_index ex = Some (i + 1) \<Longrightarrow>
   cues_ok cfg (s\<lparr>exercise := ex, reads := n, last_second := l, countdown_beeps_played := {}\<rparr>)"
  unfolding cues_ok_def using cue_ok_next [of cfg i "countdown_beeps_played s"]
  by (simp add: list_all_iff)

lemma cues_ok_no_index:
  "cues_ok cfg s \<Longrightarrow> current_phase_index ex = None \<Longrightarrow>
   cues_ok cfg (s\<lparr>exercise := ex, reads := n\<rparr>)"
  unfolding cues_ok_def
  using cue_ok_none [of cfg "current_phase_index (exercise s)" "countdown_beeps_played s"]
  by (simp add: list_all_iff)

lemma exercise_inv_shape:
  assumes "exercise_inv e" "started e"
  shows "length (phases e) = length (generate_phases (config e))"
    and "j < length (phases e) \<Longrightarrow>
         instruction (phases e ! j) = instruction (generate_phases (config e) ! j)"
proof -
  let ?f = "\<lambda>p. p\<lparr>state := NOT_STARTED\<rparr>"
  from assms have m: "map ?f (phases e) = generate_phases (config e)"
    by (simp add: exercise_inv_def)
  then show "length (phases e) = length (generate_phases (config e))"
    by (metis length_map)
  assume j: "j < length (phases e)"
  then have "instruction (map ?f (phases e) ! j) = instruction (phases e ! j)" by simp
  with m show "instruction (phases e ! j) = instruction (generate_phases (config e) ! j)"
    by simp
qed

lemma is_expired_mono:
  assumes "is_expired x t" "x \<le> y"
  shows "is_expired y t"
  using assms by (auto simp: is_expired_def elapsed_def split: option.splits if_splits)

lemma redraw_beeps: "\<exists>new. beeps (redraw r p s) = beeps s @ new"
  by (simp add: redraw_def Let_def)

text \<open>One iteration of the loop from a state that satisfies the invariant, on an
  exercise that is not complete: it waits, moves to the next phase, finishes, or (only
  when the clock goes backward between two readings) raises.\<close>

lemma loop_body_step:
  assumes inv: "loop_inv cfg s" and nc: "\<not> completed (exercise s)"
  obtains
    (wait) s' t where "loop_body clock s = (Continue, s')" "loop_inv cfg s'"
      "\<not> completed (exercise s')"
      "current_phase_index (exercise s') = current_phase_index (exercise s)"
      "timer (exercise s) = Some t" "timer (exercise s') = Some t"
      "reads s' = reads s + 3" "\<not> is_expired (clock (reads s + 2)) t"
      "\<exists>new. beeps s' = beeps s @ new"
  | (moved) s' i where "loop_body clock s = (Continue, s')" "loop_inv cfg s'"
      "\<not> completed (exercise s')"
      "current_phase_index (exercise s) = Some i"
      "current_phase_index (exercise s') = Some (i + 1)"
      "last_second s' = - 1" "countdown_beeps_played s' = {}"
      "\<exists>new. beeps s' = beeps s @ new"
  | (finish) s' where "loop_body clock s = (Break, s')" "loop_inv cfg s'"
      "completed (exercise s')" "\<exists>new. beeps s' = beeps s @ new"
  | (raise) s' err t where "loop_body clock s = (Raise err, s')" "loop_inv cfg s'"
      "current_phase_index (exercise s') = current_phase_index (exercise s)"
      "timer (exercise s) = Some t"
      "is_expired (clock (reads s + 2)) t" "\<not> is_expired (clock (reads s + 3)) t"
      "\<exists>new. beeps s' = beeps s @ new"
proof -
  let ?e = "exercise s"
  let ?n = "reads s"
  from inv have einv: "exercise_inv ?e" and cfg: "config ?e = cfg" and st: "started ?e"
    and cu: "cues_ok cfg s"
    by (simp_all add: loop_inv_def)
  from einv st nc obtain i t where f: "current_phase_index ?e = Some i" "timer ?e = Some t"
    "i < length (phases ?e)"
    by (rule exercise_inv_running)
  let ?p = "phases ?e ! i"
  have gcp: "get_current_phase ?e = Inr (Some ?p)"
    using st nc f by (simp add: get_current_phase_def)
  define e1 where "e1 =
    (if in_countdown (clock ?n) t \<and> is_in_progress ?p then snd (enter_countdown_current ?e)
     else ?e)"
  have ec: "(if in_countdown (clock ?n) t \<and> is_in_progress ?p
             then enter_countdown_current ?e else (Inr (), ?e)) = (Inr (), e1)"
    using enter_countdown_current_in_progress [OF gcp]
    by (auto simp: e1_def prod_eq_iff)
  have e1: "exercise_inv e1" "config e1 = cfg" "started e1" "\<not> completed e1"
    "current_phase_index e1 = Some i" "timer e1 = Some t"
    using einv cfg st nc f
    by (auto simp: e1_def exercise_inv_countdown enter_countdown_current_frame)
  from e1(1,3,4) obtain i1 t1 where g: "current_phase_index e1 = Some i1" "timer e1 = Some t1"
    "i1 < length (phases e1)"
    "state (phases e1 ! i1) \<in> {IN_PROGRESS, COUNTDOWN}"
    "\<forall>j. i1 < j \<and> j < length (phases e1) \<longrightarrow> state (phases e1 ! j) = NOT_STARTED"
    by (rule exercise_inv_running)
  with e1(5,6) have [simp]: "i1 = i" "t1 = t" by simp_all
  define r where "r = py_int (remaining_time (clock (?n + 1)) t)"
  define s2 where "s2 = redraw r ?p (s\<lparr>exercise := e1\<rparr>)"
  have s2: "exercise s2 = e1" "reads s2 = ?n" by (simp_all add: s2_def redraw_frame)
  have ext: "\<exists>new. beeps s2 = beeps s @ new"
    using redraw_beeps [of r ?p "s\<lparr>exercise := e1\<rparr>"] by (simp add: s2_def)
  have len: "i < length (generate_phases cfg)"
    using exercise_inv_shape(1) [OF einv st] f(3) cfg by simp
  have ins: "instruction ?p = instruction (generate_phases cfg ! i)"
    using exercise_inv_shape(2) [OF einv st f(3)] cfg by simp
  have cu1: "cues_ok cfg (s\<lparr>exercise := e1\<rparr>)"
    using cu e1(5) f(1) by (simp add: cues_ok_def)
  have cu2: "cues_ok cfg s2"
    unfolding s2_def by (rule redraw_cues_ok [OF cu1 _ _ len ins]) (simp_all add: e1)
  have body: "loop_body clock s =
     (if is_expired (clock (?n + 2)) t then
        (case advance_phase (clock (?n + 3)) (clock (?n + 4)) e1 of
           (Inl err, ex) \<Rightarrow> (Raise err, s2\<lparr>exercise := ex, reads := ?n + 5\<rparr>)
         | (Inr advanced, ex) \<Rightarrow>
             if \<not> advanced then (Break, s2\<lparr>exercise := ex, reads := ?n + 5\<rparr>)
             else
               (case get_current_phase ex of
                  Inl err \<Rightarrow> (Raise err, s2\<lparr>exercise := ex, reads := ?n + 5,
                                  last_second := - 1, countdown_beeps_played := {}\<rparr>)
                | Inr _ \<Rightarrow> (Continue, s2\<lparr>exercise := ex, reads := ?n + 5,
                                  last_second := - 1, countdown_beeps_played := {}\<rparr>)))
      else (Continue, s2\<lparr>reads := ?n + 3\<rparr>))"
    using gcp f(2) ec
    by (simp add: loop_body_def Let_def s2_def r_def redraw_frame
        split: prod.splits sum.splits)
  show thesis
  proof (cases "is_expired (clock (?n + 2)) t")
    case False
    let ?s' = "s2\<lparr>reads := ?n + 3\<rparr>"
    have b: "loop_body clock s = (Continue, ?s')" using body False by simp
    have i': "loop_inv cfg ?s'"
      using e1 cu2 s2 by (simp add: loop_inv_def cues_ok_def)
    show thesis
      by (rule wait [OF b i' _ _ f(2) _ _ False]) (use ext in \<open>simp_all add: s2 e1 f\<close>)
  next
    case exp2: True
    show thesis
    proof (cases "is_expired (clock (?n + 3)) t")
      case False
      let ?s' = "s2\<lparr>exercise := e1, reads := ?n + 5\<rparr>"
      have a: "advance_phase (clock (?n + 3)) (clock (?n + 4)) e1 =
          (Inl (RuntimeError ''Current phase not complete''), e1)"
        using e1 False by (intro advance_phase_not_expired) simp_all
      have b: "loop_body clock s = (Raise (RuntimeError ''Current phase not complete''), ?s')"
        using body exp2 a by simp
      have i': "loop_inv cfg ?s'"
        using e1 cu2 s2 by (simp add: loop_inv_def cues_ok_def)
      show thesis
        by (rule raise [OF b i' _ f(2) exp2 False]) (use ext in \<open>simp_all add: e1 f\<close>)
    next
      case exp3: True
      let ?a = "advance_phase (clock (?n + 3)) (clock (?n + 4)) e1"
      have ainv: "exercise_inv (snd ?a)" using e1(1) by (rule exercise_inv_advance)
      show thesis
      proof (cases "i + 1 < length (phases e1)")
        case nxt: True
        have pos: "0 < duration (phases e1 ! (i + 1))"
          using e1(1,3) nxt by (rule exercise_inv_durations)
        have thr: "0 \<le> countdown_beep_threshold (config e1)"
          using e1(1) by (simp add: exercise_inv_def validate_ok)
        have ns: "state (phases e1 ! (i + 1)) = NOT_STARTED" using g(5) nxt by simp
        note a = advance_phase_next [OF e1(3,4,6) exp3 e1(5) nxt _ ns pos thr,
            of "clock (?n + 4)"]
        from g(4) have a': "?a = (Inr True, snd ?a)" using a by simp
        have props: "config (snd ?a) = cfg" "started (snd ?a)" "\<not> completed (snd ?a)"
          "current_phase_index (snd ?a) = Some (i + 1)"
          "i + 1 < length (phases (snd ?a))"
          using a g(4) e1 nxt by simp_all
        have gc: "get_current_phase (snd ?a) = Inr (Some (phases (snd ?a) ! (i + 1)))"
          using props by (simp add: get_current_phase_def)
        let ?s' = "s2\<lparr>exercise := snd ?a, reads := ?n + 5,
                     last_second := - 1, countdown_beeps_played := {}\<rparr>"
        have b: "loop_body clock s = (Continue, ?s')"
          unfolding body using exp2 gc by (subst a') simp
        have "cues_ok cfg ?s'"
          using cu2 props(4) by (intro cues_ok_next_index [of cfg s2 i]) (simp_all add: s2 e1)
        then have i': "loop_inv cfg ?s'"
          using ainv props by (simp add: loop_inv_def)
        show thesis
          by (rule moved [OF b i' _ f(1)]) (use ext in \<open>simp_all add: props\<close>)
      next
        case False
        with g(3) have last: "i + 1 = length (phases e1)" by simp
        note a = advance_phase_last [OF e1(3,4,6) exp3 e1(5) last, of "clock (?n + 4)"]
        from g(4) have a': "?a = (Inr False, snd ?a)" using a by simp
        have props: "config (snd ?a) = cfg" "started (snd ?a)" "completed (snd ?a)"
          "current_phase_index (snd ?a) = None"
          using a g(4) e1 by simp_all
        let ?s' = "s2\<lparr>exercise := snd ?a, reads := ?n + 5\<rparr>"
        have b: "loop_body clock s = (Break, ?s')"
          unfolding body using exp2 by (subst a') simp
        have "cues_ok cfg ?s'"
          using cu2 props(4) by (rule cues_ok_no_index)
        then have i': "loop_inv cfg ?s'"
          using ainv props by (simp add: loop_inv_def)
        show thesis
          by (rule finish [OF b i']) (use ext in \<open>simp_all add: props\<close>)
      qed
    qed
  qed
qed

lemma loop_inv_initial:
  assumes "validate cfg = Inr ()"
    "Exercise_start now (Exercise_init (Some cfg)) = (Inr (), ex)"
  shows "loop_inv cfg (initial_loop_state ex)"
proof -
  let ?e0 = "Exercise_init (Some cfg)"
  have e0: "\<not> started ?e0" "\<not> completed ?e0" "config ?e0 = cfg"
    by (simp_all add: Exercise_init_def)
  have "exercise_inv (snd (Exercise_start now ?e0))"
    using assms(1) by (intro exercise_inv_start exercise_inv_init)
  moreover have "config (snd (Exercise_start now ?e0)) = cfg"
    "started (snd (Exercise_start now ?e0))"
    using Exercise_start_ok [of ?e0 now] e0 assms(1) by simp_all
  ultimately show ?thesis
    using assms(2) by (simp add: loop_inv_def initial_loop_state_def cues_ok_def)
qed

lemma loop_states_inv: "loop_states cfg clock s \<Longrightarrow> loop_inv cfg s"
proof (induction rule: loop_states.induct)
  case (enter ex)
  then show ?case by (rule loop_inv_initial)
next
  case (tick s c s')
  from tick.hyps(2) have nc: "\<not> completed (exercise s)" by (simp add: is_complete_def)
  from tick.IH nc show ?case
    by (rule loop_body_step [where clock = clock]) (use tick.hyps(3) in auto)
qed

text \<open>
  C6. In every state of the render loop, whatever the clock readings: no cue is recorded
  twice for the same phase and the same integer remaining value, however many iterations
  observe that value; every cue was emitted with audio enabled; a "countdown" cue is at
  a remaining value r with 1 \<le> r \<le> countdown_beep_threshold; a "transition" cue is at
  remaining value 0 and never for the phase labeled "Complete" (so there is at most one
  per phase). An iteration only appends to the record of cues, and an iteration that
  moves the exercise to another phase leaves \<open>last_second\<close> at -1 and
  \<open>countdown_beeps_played\<close> empty.
\<close>

theorem cue_emission:
  "loop_states cfg clock s \<Longrightarrow>
   distinct (beeps s) \<and>
   (\<forall>k j r. (k, j, r) \<in> set (beeps s) \<longrightarrow>
      audio_enabled cfg \<and>
      (\<exists>i. j = Some i \<and> i < length (phases (exercise s)) \<and>
         (k = ''countdown'' \<and> 1 \<le> r \<and> r \<le> countdown_beep_threshold cfg \<or>
          k = ''transition'' \<and> r = 0 \<and> instruction (phases (exercise s) ! i) \<noteq> ''Complete''))) \<and>
   (\<forall>c s'. \<not> is_complete (exercise s) \<and> loop_body clock s = (c, s') \<longrightarrow>
      (\<exists>new. beeps s' = beeps s @ new) \<and>
      (current_phase_index (exercise s') \<noteq> current_phase_index (exercise s) \<and>
       current_phase_index (exercise s') \<noteq> None \<longrightarrow>
         last_second s' = - 1 \<and> countdown_beeps_played s' = {}))"
proof -
  assume ls: "loop_states cfg clock s"
  then have inv: "loop_inv cfg s" by (rule loop_states_inv)
  then have einv: "exercise_inv (exercise s)" and cfg: "config (exercise s) = cfg"
    and st: "started (exercise s)" and cu: "cues_ok cfg s"
    by (simp_all add: loop_inv_def)
  from cu have d: "distinct (beeps s)" by (simp add: cues_ok_def)
  have entries: "audio_enabled cfg \<and>
      (\<exists>i. j = Some i \<and> i < length (phases (exercise s)) \<and>
         (k = ''countdown'' \<and> 1 \<le> r \<and> r \<le> countdown_beep_threshold cfg \<or>
          k = ''transition'' \<and> r = 0 \<and> instruction (phases (exercise s) ! i) \<noteq> ''Complete''))"
    if "(k, j, r) \<in> set (beeps s)" for k j r
  proof -
    from cu that have
      "cue_ok cfg (current_phase_index (exercise s)) (countdown_beeps_played s) (k, j, r)"
      by (simp add: cues_ok_def list_all_iff)
    then obtain i where i: "audio_enabled cfg" "j = Some i" "i < length (generate_phases cfg)"
      "k = ''countdown'' \<and> 1 \<le> r \<and> r \<le> countdown_beep_threshold cfg \<or>
       k = ''transition'' \<and> r = 0 \<and> instruction (generate_phases cfg ! i) \<noteq> ''Complete''"
      by (auto simp: cue_ok_iff)
    from exercise_inv_shape(1) [OF einv st] cfg i(3) have l: "i < length (phases (exercise s))"
      by simp
    from exercise_inv_shape(2) [OF einv st l] cfg
    have "instruction (phases (exercise s) ! i) = instruction (generate_phases cfg ! i)"
      by simp
    with i l show ?thesis by auto
  qed
  have step: "(\<exists>new. beeps s' = beeps s @ new) \<and>
      (current_phase_index (exercise s') \<noteq> current_phase_index (exercise s) \<and>
       current_phase_index (exercise s') \<noteq> None \<longrightarrow>
         last_second s' = - 1 \<and> countdown_beeps_played s' = {})"
    if "\<not> is_complete (exercise s)" "loop_body clock s = (c, s')" for c s'
  proof -
    from that(1) have nc: "\<not> completed (exercise s)" by (simp add: is_complete_def)
    from inv nc show ?thesis
    proof (rule loop_body_step [where clock = clock])
      fix s1
      assume "loop_body clock s = (Break, s1)" "loop_inv cfg s1" "completed (exercise s1)"
        "\<exists>new. beeps s1 = beeps s @ new"
      with that(2) show ?thesis
        by (auto simp: loop_inv_def exercise_inv_def split: if_splits)
    qed (use that(2) in auto)
  qed
  from d entries step show ?thesis by blast
qed

lemma cue_example_start:
  "Exercise_start 0 (Exercise_init (Some \<lparr>hold_duration = 1, step_durations = [1],
       countdown_beep_threshold = 1, preparation_duration = 0, audio_enabled = True,
       display_mode = PLAIN\<rparr>)) =
   (Inr (),
    \<lparr>config = \<lparr>hold_duration = 1, step_durations = [1], countdown_beep_threshold = 1,
        preparation_duration = 0, audio_enabled = True, display_mode = PLAIN\<rparr>,
     phases = [\<lparr>ptype = BREATHING, duration = 1, instruction = ''Breathe'', color = ''cyan'',
                 state = IN_PROGRESS\<rparr>,
               \<lparr>ptype = HOLD, duration = 1, instruction = ''Hold'', color = ''yellow'',
                 state = NOT_STARTED\<rparr>,
               \<lparr>ptype = BREATHING, duration = 1, instruction = ''Complete'', color = ''blue'',
                 state = NOT_STARTED\<rparr>],
     current_phase_index = Some 0,
     timer = Some \<lparr>t_duration = 1, countdown_threshold = 1, start_time = Some 0,
        is_running = True\<rparr>,
     started = True, completed = False\<rparr>)"
  by (simp add: Exercise_start_def Exercise_init_def generate_phases_closed Phase_init_def
      start_phase_at_def Phase_start_def new_timer_def Timer_init_def Timer_start_def Let_def)

lemma cue_example_tick:
  "loop_body (\<lambda>n. 0) (initial_loop_state
    \<lparr>config = \<lparr>hold_duration = 1, step_durations = [1], countdown_beep_threshold = 1,
        preparation_duration = 0, audio_enabled = True, display_mode = PLAIN\<rparr>,
     phases = [\<lparr>ptype = BREATHING, duration = 1, instruction = ''Breathe'', color = ''cyan'',
                 state = IN_PROGRESS\<rparr>,
               \<lparr>ptype = HOLD, duration = 1, instruction = ''Hold'', color = ''yellow'',
                 state = NOT_STARTED\<rparr>,
               \<lparr>ptype = BREATHING, duration = 1, instruction = ''Complete'', color = ''blue'',
                 state = NOT_STARTED\<rparr>],
     current_phase_index = Some 0,
     timer = Some \<lparr>t_duration = 1, countdown_threshold = 1, start_time = Some 0,
        is_running = True\<rparr>,
     started = True, completed = False\<rparr>) =
   (Continue,
    \<lparr>exercise =
      \<lparr>config = \<lparr>hold_duration = 1, step_durations = [1], countdown_beep_threshold = 1,
          preparation_duration = 0, audio_enabled = True, display_mode = PLAIN\<rparr>,
       phases = [\<lparr>ptype = BREATHING, duration = 1, instruction = ''Breathe'', color = ''cyan'',
                   state = COUNTDOWN\<rparr>,
                 \<lparr>ptype = HOLD, duration = 1, instruction = ''Hold'', color = ''yellow'',
                   state = NOT_STARTED\<rparr>,
                 \<lparr>ptype = BREATHING, duration = 1, instruction = ''Complete'', color = ''blue'',
                   state = NOT_STARTED\<rparr>],
       current_phase_index = Some 0,
       timer = Some \<lparr>t_duration = 1, countdown_threshold = 1, start_time = Some 0,
          is_running = True\<rparr>,
       started = True, completed = False\<rparr>,
     last_second = 1, countdown_beeps_played = {1}, reads = 4,
     beeps = [(''countdown'', Some 0, 1)]\<rparr>)"
  by (simp add: loop_body_def initial_loop_state_def get_current_phase_def in_countdown_def
      remaining_time_def elapsed_def is_in_progress_def enter_countdown_current_def
      Phase_enter_countdown_def py_int_def redraw_def is_expired_def Let_def)

theorem cue_emission_witness:
  "(let cfg = \<lparr>hold_duration = 1, step_durations = [1], countdown_beep_threshold = 1,
               preparation_duration = 0, audio_enabled = True, display_mode = PLAIN\<rparr>;
        s = snd (loop_body (\<lambda>n. 0)
              (initial_loop_state (snd (Exercise_start 0 (Exercise_init (Some cfg))))))
    in loop_states cfg (\<lambda>n. 0) s \<and> beeps s = [(''countdown'', Some 0, 1)] \<and>
       distinct (beeps s) \<and> audio_enabled cfg \<and> 1 \<le> countdown_beep_threshold cfg)"
proof -
  let ?cfg = "\<lparr>hold_duration = 1, step_durations = [1], countdown_beep_threshold = 1,
               preparation_duration = 0, audio_enabled = True, display_mode = PLAIN\<rparr>"
  let ?e0 = "snd (Exercise_start 0 (Exercise_init (Some ?cfg)))"
  let ?s = "snd (loop_body (\<lambda>n. 0) (initial_loop_state ?e0))"
  have v: "validate ?cfg = Inr ()" by (simp add: validate_ok)
  have st: "Exercise_start ((\<lambda>n. 0) (0::nat)) (Exercise_init (Some ?cfg)) = (Inr (), ?e0)"
    by (simp add: cue_example_start)
  have r0: "loop_states ?cfg (\<lambda>n. 0) (initial_loop_state ?e0)"
    using v st by (rule loop_states.enter)
  have nc: "\<not> is_complete (exercise (initial_loop_state ?e0))"
    by (simp add: cue_example_start initial_loop_state_def is_complete_def)
  have "loop_body (\<lambda>n. 0) (initial_loop_state ?e0) =
      (fst (loop_body (\<lambda>n. 0) (initial_loop_state ?e0)), ?s)"
    by simp
  with r0 nc have r1: "loop_states ?cfg (\<lambda>n. 0) ?s" by (rule loop_states.tick)
  have b: "beeps ?s = [(''countdown'', Some 0, 1)]"
    by (simp add: cue_example_start cue_example_tick)
  from cue_emission [OF r1] r1 b show ?thesis
    unfolding Let_def by simp
qed

lemma exercise_loop_terminates:
  assumes mono: "mono clock" and unb: "\<forall>x. \<exists>n. x \<le> clock n" and inv: "loop_inv cfg s"
  shows "\<exists>s'. exercise_loop clock s = Some (None, s') \<and> completed (exercise s') \<and>
           loop_inv cfg s'"
proof -
  let ?Q = "\<lambda>s. \<exists>s'. exercise_loop clock s = Some (None, s') \<and> completed (exercise s') \<and>
           loop_inv cfg s'"
  have fin: "?Q s" if "loop_inv cfg s" "completed (exercise s)" for s
    using that by (subst exercise_loop.simps) (simp add: is_complete_def)
  have cont: "?Q s" if "\<not> completed (exercise s)" "loop_body clock s = (Continue, s')" "?Q s'"
    for s s'
    using that by (subst exercise_loop.simps) (simp add: is_complete_def)
  have brk: "?Q s" if "\<not> completed (exercise s)" "loop_body clock s = (Break, s')"
    "loop_inv cfg s'" "completed (exercise s')" for s s'
    using that by (subst exercise_loop.simps) (simp add: is_complete_def)
  have run: "?Q s" if "loop_inv cfg s" "\<not> completed (exercise s)"
    "current_phase_index (exercise s) = Some i" "k = length (generate_phases cfg) - i"
    for s i k
    using that
  proof (induction k arbitrary: s i rule: less_induct)
    case (less k)
    note outer_IH = less.IH and kdef = less.prems(4)
    from less.prems(1) have einv: "exercise_inv (exercise s)" and st: "started (exercise s)"
      and cfg: "config (exercise s) = cfg"
      by (simp_all add: loop_inv_def)
    from einv st less.prems(2) obtain i0 t where f: "current_phase_index (exercise s) = Some i0"
      "timer (exercise s) = Some t" "i0 < length (phases (exercise s))"
      "is_running t" "start_time t \<noteq> None"
      by (rule exercise_inv_running)
    from f(5) obtain st0 where st0: "start_time t = Some st0" by auto
    from f(1,3) less.prems(3) exercise_inv_shape(1) [OF einv st] cfg
    have ilen: "i < length (generate_phases cfg)" by simp
    from unb obtain N where N: "st0 + t_duration t \<le> clock N" by blast
    have inner: "?Q s2" if "loop_inv cfg s2" "\<not> completed (exercise s2)"
      "current_phase_index (exercise s2) = Some i" "timer (exercise s2) = Some t"
      "m = N - reads s2" for s2 m
      using that
    proof (induction m arbitrary: s2 rule: less_induct)
      case (less m)
      note inner_IH = less.IH
      from less.prems(1,2) show ?case
      proof (rule loop_body_step [where clock = clock])
        fix s' t'
        assume a: "loop_body clock s2 = (Continue, s')" "loop_inv cfg s'"
          "\<not> completed (exercise s')"
          "current_phase_index (exercise s') = current_phase_index (exercise s2)"
          "timer (exercise s2) = Some t'" "timer (exercise s') = Some t'"
          "reads s' = reads s2 + 3" "\<not> is_expired (clock (reads s2 + 2)) t'"
        from a(5) less.prems(4) have t': "t' = t" by simp
        from a(8) f(4) st0 have "clock (reads s2 + 2) < st0 + t_duration t"
          unfolding t' by (simp add: is_expired_def elapsed_def)
        with N have "clock (reads s2 + 2) < clock N" by simp
        then have "reads s2 + 2 < N"
          using mono by (metis monoD not_le_imp_less leD)
        with a(7) less.prems(5) have "N - reads s' < m" by simp
        then have "?Q s'"
          using a(2,3,4,6) less.prems(3) t' by (intro inner_IH [of "N - reads s'" s']) simp_all
        with less.prems(2) a(1) show ?thesis by (rule cont)
      next
        fix s' i'
        assume a: "loop_body clock s2 = (Continue, s')" "loop_inv cfg s'"
          "\<not> completed (exercise s')" "current_phase_index (exercise s2) = Some i'"
          "current_phase_index (exercise s') = Some (i' + 1)"
        from a(4) less.prems(3) have i': "i' = i" by simp
        have "length (generate_phases cfg) - (i + 1) < k"
          using ilen kdef by simp
        then have "?Q s'"
          using a(2,3,5) i' by (intro outer_IH [of _ s' "i + 1"]) simp_all
        with less.prems(2) a(1) show ?thesis by (rule cont)
      next
        fix s'
        assume "loop_body clock s2 = (Break, s')" "loop_inv cfg s'" "completed (exercise s')"
        with less.prems(2) show ?thesis by (rule brk)
      next
        fix s' err t'
        assume a: "timer (exercise s2) = Some t'"
          "is_expired (clock (reads s2 + 2)) t'" "\<not> is_expired (clock (reads s2 + 3)) t'"
        have "clock (reads s2 + 2) \<le> clock (reads s2 + 3)"
          using mono by (simp add: monoD)
        with a(2) have "is_expired (clock (reads s2 + 3)) t'" by (rule is_expired_mono)
        with a(3) show ?thesis by simp
      qed
    qed
    show ?case
      using less.prems(1,2,3) f(2) by (rule inner) simp
  qed
  show ?thesis
  proof (cases "completed (exercise s)")
    case True
    with inv show ?thesis by (rule fin)
  next
    case False
    from inv have "exercise_inv (exercise s)" "started (exercise s)"
      by (simp_all add: loop_inv_def)
    from this False obtain i where "current_phase_index (exercise s) = Some i"
      by (rule exercise_inv_running)
    with inv False show ?thesis by (rule run) simp
  qed
qed

text \<open>
  Under such a clock \<open>run_exercise\<close> returns True on every validated configuration.
\<close>

lemma run_exercise_completes:
  assumes mono: "mono clock" and unb: "\<forall>x. \<exists>n. x \<le> clock n"
    and v: "validate cfg = Inr ()"
  shows "\<exists>s. run_exercise cfg clock = Some (Inr True, s) \<and> completed (exercise s) \<and>
           loop_inv cfg s"
proof -
  let ?e0 = "Exercise_init (Some cfg)"
  have e0: "\<not> started ?e0" "\<not> completed ?e0" "validate (config ?e0) = Inr ()"
    using v by (simp_all add: Exercise_init_def)
  from Exercise_start_ok [OF e0, of "clock 0"]
  obtain ex where st: "Exercise_start (clock 0) ?e0 = (Inr (), ex)" by blast
  with v have "loop_inv cfg (initial_loop_state ex)" by (rule loop_inv_initial)
  with mono unb obtain s where s: "exercise_loop clock (initial_loop_state ex) = Some (None, s)"
    "completed (exercise s)" "loop_inv cfg s"
    using exercise_loop_terminates by blast
  from s(2) have "final_advance clock s = (None, s)"
    by (simp add: final_advance_def is_complete_def)
  with st s(1) have "run_exercise cfg clock = Some (Inr True, s)"
    by (simp add: run_exercise_def)
  with s(2,3) show ?thesis by blast
qed

text \<open>
  C8. For a validated configuration with the single step duration 1, no preparation and
  audio disabled, under clock readings that never go backward and grow beyond every
  bound, \<open>run_exercise\<close> returns True: the loop ends instead of running forever, no
  exception reaches the handler, the exercise is complete with its index cleared, all
  three phases (the Breathing step, its Hold and the terminal "Complete" marker) are
  COMPLETED, and no cue was emitted.
\<close>

theorem single_step_run_terminates:
  "mono clock \<Longrightarrow> \<forall>x. \<exists>n. x \<le> clock n \<Longrightarrow> validate cfg = Inr () \<Longrightarrow>
   step_durations cfg = [1] \<Longrightarrow> preparation_duration cfg = 0 \<Longrightarrow> \<not> audio_enabled cfg \<Longrightarrow>
   \<exists>s. run_exercise cfg clock = Some (Inr True, s) \<and>
       is_complete (exercise s) \<and> current_phase_index (exercise s) = None \<and>
       map (\<lambda>p. (ptype p, duration p, instruction p)) (phases (exercise s)) =
         [(BREATHING, 1, ''Breathe''), (HOLD, hold_duration cfg, ''Hold''),
          (BREATHING, 1, ''Complete'')] \<and>
       list_all is_completed (phases (exercise s)) \<and>
       beeps s = []"
proof -
  assume mono: "mono clock" and unb: "\<forall>x. \<exists>n. x \<le> clock n" and v: "validate cfg = Inr ()"
    and steps: "step_durations cfg = [1]" and prep: "preparation_duration cfg = 0"
    and audio: "\<not> audio_enabled cfg"
  from run_exercise_completes [OF mono unb v]
  obtain s where s: "run_exercise cfg clock = Some (Inr True, s)" "completed (exercise s)"
    "loop_inv cfg s"
    by blast
  let ?e = "exercise s"
  let ?f = "\<lambda>p. p\<lparr>state := NOT_STARTED\<rparr>"
  from s(3) have einv: "exercise_inv ?e" and cfg: "config ?e = cfg" and st: "started ?e"
    and cu: "cues_ok cfg s"
    by (simp_all add: loop_inv_def)
  from einv st s(2) cfg have m: "map ?f (phases ?e) = generate_phases cfg"
    and idx: "current_phase_index ?e = None"
    and comp: "list_all is_completed (phases ?e)"
    by (simp_all add: exercise_inv_def)
  have "map (\<lambda>p. (ptype p, duration p, instruction p)) (phases ?e) =
      map (\<lambda>p. (ptype p, duration p, instruction p)) (map ?f (phases ?e))"
    by simp
  also have "\<dots> = [(BREATHING, 1, ''Breathe''), (HOLD, hold_duration cfg, ''Hold''),
          (BREATHING, 1, ''Complete'')]"
    unfolding m by (simp add: generate_phases_closed steps prep Phase_init_def)
  finally have shape: "map (\<lambda>p. (ptype p, duration p, instruction p)) (phases ?e) =
      [(BREATHING, 1, ''Breathe''), (HOLD, hold_duration cfg, ''Hold''),
       (BREATHING, 1, ''Complete'')]" .
  have nob: "beeps s = []"
  proof (cases "beeps s")
    case Nil
    then show ?thesis .
  next
    case (Cons c cs)
    with cu have "cue_ok cfg (current_phase_index ?e) (countdown_beeps_played s) c"
      by (simp add: cues_ok_def)
    with audio show ?thesis by (cases c) (simp add: cue_ok_iff)
  qed
  from s(1,2) idx shape comp nob show ?thesis
    by (auto simp: is_complete_def)
qed

theorem single_step_run_terminates_witness:
  "mono (\<lambda>n. real n) \<and> (\<forall>x. \<exists>n. x \<le> real n) \<and>
   validate \<lparr>hold_duration = 2, step_durations = [1], countdown_beep_threshold = 5,
      preparation_duration = 0, audio_enabled = False, display_mode = PLAIN\<rparr> = Inr () \<and>
   (\<exists>s. run_exercise \<lparr>hold_duration = 2, step_durations = [1], countdown_beep_threshold = 5,
      preparation_duration = 0, audio_enabled = False, display_mode = PLAIN\<rparr> (\<lambda>n. real n)
        = Some (Inr True, s) \<and>
      is_complete (exercise s) \<and>
      map (\<lambda>p. (ptype p, duration p, instruction p)) (phases (exercise s)) =
         [(BREATHING, 1, ''Breathe''), (HOLD, 2, ''Hold''), (BREATHING, 1, ''Complete'')])"
proof -
  let ?cfg = "\<lparr>hold_duration = 2, step_durations = [1], countdown_beep_threshold = 5,
      preparation_duration = 0, audio_enabled = False, display_mode = PLAIN\<rparr>"
  have m: "mono (\<lambda>n. real n)" by (simp add: mono_def)
  have u: "\<forall>x. \<exists>n. x \<le> real n" using real_arch_simple by blast
  have v: "validate ?cfg = Inr ()" by (simp add: validate_ok)
  from single_step_run_terminates [OF m u v] m u v show ?thesis by auto
qed

end
